theory Spec2Isabelle
  imports Complex_Main "HOL-Library.AList" "HOL-Library.Multiset"
begin

section \<open>Numbers\<close>

text \<open>
  A JavaScript number is modelled as a real; where an operation of the source can yield
  \<^verbatim>\<open>NaN\<close> the model returns \<open>real option\<close>, with \<open>None\<close> for \<^verbatim>\<open>NaN\<close>.
  \<^verbatim>\<open>Math.sqrt\<close> of a negative number is \<^verbatim>\<open>NaN\<close>; \<^verbatim>\<open>Math.atan2\<close> is total.

  The rounding of IEEE doubles is not modelled, so the value of a distance is that of
  the formula over the reals.  In doubles the rounded \<^verbatim>\<open>sa\<close> can exceed 1 for nearly
  antipodal points, and the source's distance is then \<^verbatim>\<open>NaN\<close>; over the reals this
  cannot happen.  The statements about the assignment routes hold for whatever values
  the distances have; only the worked scenarios use particular values.
\<close>

section \<open>GeoMath: the haversine distance of \<^verbatim>\<open>server.js\<close>\<close>

text \<open>
  Both assignment routes declare the same local helpers \<^verbatim>\<open>toRad\<close>, \<^verbatim>\<open>R\<close> and
  \<^verbatim>\<open>dist\<close>.  The copy in \<^verbatim>\<open>PUT /api/orders/:orderId/assign\<close> writes the squares as
  \<^verbatim>\<open>x ** 2\<close> (\<open>dist_put\<close>), the copy in \<^verbatim>\<open>POST /api/admin/orders/:orderId/assign\<close>
  as \<^verbatim>\<open>x * x\<close> (\<open>dist\<close>).
\<close>

definition toRad :: "real \<Rightarrow> real" where
  "toRad d = (d * pi) / 180"

definition R :: real where
  "R = 6371"

definition js_sqrt :: "real \<Rightarrow> real option" where
  "js_sqrt x = (if x < 0 then None else Some (sqrt x))"

definition atan2 :: "real \<Rightarrow> real \<Rightarrow> real" where
  "atan2 y x =
     (if 0 < x then arctan (y / x)
      else if x < 0 then (if 0 \<le> y then arctan (y / x) + pi else arctan (y / x) - pi)
      else if 0 < y then pi / 2
      else if y < 0 then - (pi / 2)
      else 0)"

definition dist :: "real \<Rightarrow> real \<Rightarrow> real \<Rightarrow> real \<Rightarrow> real option" where
  "dist aLat aLng bLat bLng =
     (let dLat = toRad (bLat - aLat);
          dLng = toRad (bLng - aLng);
          sa = sin (dLat / 2) * sin (dLat / 2) +
               cos (toRad aLat) * cos (toRad bLat) *
               sin (dLng / 2) * sin (dLng / 2)
      in case js_sqrt sa of
           None \<Rightarrow> None
         | Some p \<Rightarrow> (case js_sqrt (1 - sa) of
                       None \<Rightarrow> None
                     | Some q \<Rightarrow> Some (R * (2 * atan2 p q))))"

definition dist_put :: "real \<Rightarrow> real \<Rightarrow> real \<Rightarrow> real \<Rightarrow> real option" where
  "dist_put aLat aLng bLat bLng =
     (let dLat = toRad (bLat - aLat);
          dLng = toRad (bLng - aLng);
          sa = sin (dLat / 2) ^ 2 +
               cos (toRad aLat) * cos (toRad bLat) * sin (dLng / 2) ^ 2
      in case js_sqrt sa of
           None \<Rightarrow> None
         | Some p \<Rightarrow> (case js_sqrt (1 - sa) of
                       None \<Rightarrow> None
                     | Some q \<Rightarrow> Some (R * (2 * atan2 p q))))"

section \<open>The persistent store\<close>

text \<open>
  The tables the assignment routes read and write, as lists of rows in the order the
  database returns them.  A nullable column is an \<open>option\<close>.  Identifiers are integers,
  and the order id of a request is the number the database compares with the \<^verbatim>\<open>id\<close>
  column.  Statuses are strings, compared by equality.
\<close>

record order_row =
  o_id :: int
  o_restaurant_id :: "int option"
  o_agent_id :: "int option"
  o_status :: string

record restaurant_row =
  r_id :: int
  r_latitude :: "real option"
  r_longitude :: "real option"

record agent_row =
  a_id :: int
  a_status :: string
  a_lat :: "real option"
  a_lng :: "real option"

record db_state =
  orders :: "order_row list"
  restaurants :: "restaurant_row list"
  agents :: "agent_row list"

text \<open>
  Every \<^verbatim>\<open>db.execute\<close> may throw.  Which statements throw is a parameter
  \<open>fails :: query \<Rightarrow> bool\<close> of the handlers.
\<close>

datatype query = Select_order | Select_restaurant | Select_agents | Select_loads | Update_order

text \<open>
  A response is the HTTP status with the JSON body.  \<open>No_agents_within r\<close> is the body
  \<^verbatim>\<open>{ error: `No active agents within ${ASSIGN_MAX_KM} km` }\<close>;
  \<open>Agent_assigned\<close> carries \<^verbatim>\<open>agent_id\<close> and \<^verbatim>\<open>distance_km\<close>;
  \<open>Success\<close> is \<^verbatim>\<open>{ success: true }\<close>.  The \<^verbatim>\<open>details\<close> field of a 500 body is left out.
  \<open>Thrown\<close> stands for a handler that throws instead of answering.
\<close>

datatype body =
    Agent_assigned int "real option"
  | Error_msg string
  | No_agents_within real
  | Success

datatype response = Json nat body | Thrown

text \<open>\<^verbatim>\<open>Number(v)\<close> on a nullable numeric column: \<^verbatim>\<open>Number(null)\<close> is 0.\<close>

definition Number :: "real option \<Rightarrow> real" where
  "Number v = (case v of None \<Rightarrow> 0 | Some x \<Rightarrow> x)"

text \<open>
  \<^verbatim>\<open>x.toFixed(2)\<close> read back by \<^verbatim>\<open>Number\<close>: the nearest multiple of 1/100, the
  larger in magnitude of two equally near ones.
\<close>

definition toFixed2 :: "real \<Rightarrow> real" where
  "toFixed2 x = sgn x * real_of_int \<lfloor>\<bar>x\<bar> * 100 + 1 / 2\<rfloor> / 100"

section \<open>Configuration\<close>

text \<open>
  \<open>env_ASSIGN_MAX_KM\<close> is \<^verbatim>\<open>Number(process.env.ASSIGN_MAX_KM)\<close>, with \<open>None\<close> for
  \<^verbatim>\<open>NaN\<close> (variable unset or not numeric); \<open>env_ASSIGN_LOAD_STATUSES\<close> is the
  variable's text, \<open>None\<close> when unset.
\<close>

record env =
  env_ASSIGN_MAX_KM :: "real option"
  env_ASSIGN_LOAD_STATUSES :: "string option"

definition assign_max_km :: "env \<Rightarrow> real" where
  "assign_max_km e =
     (case env_ASSIGN_MAX_KM e of
        None \<Rightarrow> 10
      | Some v \<Rightarrow> if v = 0 then 10 else v)"

text \<open>
  \<^verbatim>\<open>text.split(',').map(s => s.trim()).filter(Boolean)\<close>.  A string is a list of
  8-bit characters and the variable's text is taken to be ASCII; on ASCII text
  \<^verbatim>\<open>trim\<close> removes exactly the six white-space characters of \<open>is_space\<close>.
\<close>

fun split_on :: "char \<Rightarrow> string \<Rightarrow> string list" where
  "split_on c [] = [[]]"
| "split_on c (x # xs) =
     (if x = c then [] # split_on c xs
      else (case split_on c xs of
              [] \<Rightarrow> [[x]]
            | w # ws \<Rightarrow> (x # w) # ws))"

definition is_space :: "char \<Rightarrow> bool" where
  "is_space c \<longleftrightarrow> c = CHR '' '' \<or> c = CHR 0x09 \<or> c = CHR 0x0A \<or> c = CHR 0x0B
                 \<or> c = CHR 0x0C \<or> c = CHR 0x0D"

definition trim :: "string \<Rightarrow> string" where
  "trim s = rev (dropWhile is_space (rev (dropWhile is_space s)))"

definition assign_load_statuses :: "env \<Rightarrow> string list" where
  "assign_load_statuses e =
     (let text = (case env_ASSIGN_LOAD_STATUSES e of
                    None \<Rightarrow> ''Pending,Confirmed,Picked''
                  | Some t \<Rightarrow> if t = [] then ''Pending,Confirmed,Picked'' else t)
      in filter (\<lambda>s. s \<noteq> []) (map trim (split_on CHR '','' text)))"

section \<open>Ranking the candidates\<close>

record candidate =
  c_id :: int
  c_d :: "real option"
  c_load :: int

text \<open>
  The comparator \<^verbatim>\<open>(a, b) => a.load - b.load || a.d - b.d\<close>: the first difference when
  it is truthy (not zero), else the second, which is \<^verbatim>\<open>NaN\<close> when a distance is.
\<close>

definition cmp_load_d :: "candidate \<Rightarrow> candidate \<Rightarrow> real option" where
  "cmp_load_d a b =
     (if c_load a - c_load b \<noteq> 0 then Some (real_of_int (c_load a - c_load b))
      else (case c_d a of
              None \<Rightarrow> None
            | Some x \<Rightarrow> (case c_d b of None \<Rightarrow> None | Some y \<Rightarrow> Some (x - y))))"

text \<open>
  \<^verbatim>\<open>Array.prototype.sort\<close> is stable, and reads a comparator value that is
  \<^verbatim>\<open>NaN\<close> as 0.  An element stays in front of a later one unless the comparator is
  positive on the pair; the model is the insertion sort with that test.
\<close>

definition not_after :: "real option \<Rightarrow> bool" where
  "not_after v = (case v of None \<Rightarrow> True | Some r \<Rightarrow> r \<le> 0)"

fun insert_cmp :: "('a \<Rightarrow> 'a \<Rightarrow> real option) \<Rightarrow> 'a \<Rightarrow> 'a list \<Rightarrow> 'a list" where
  "insert_cmp f x [] = [x]"
| "insert_cmp f x (y # ys) =
     (if not_after (f x y) then x # y # ys else y # insert_cmp f x ys)"

fun js_sort :: "('a \<Rightarrow> 'a \<Rightarrow> real option) \<Rightarrow> 'a list \<Rightarrow> 'a list" where
  "js_sort f [] = []"
| "js_sort f (x # xs) = insert_cmp f x (js_sort f xs)"

text \<open>\<^verbatim>\<open>c.d <= ASSIGN_MAX_KM\<close>; a comparison with \<^verbatim>\<open>NaN\<close> is false.\<close>

definition within_radius :: "real \<Rightarrow> candidate \<Rightarrow> bool" where
  "within_radius ASSIGN_MAX_KM c = (case c_d c of None \<Rightarrow> False | Some x \<Rightarrow> x \<le> ASSIGN_MAX_KM)"

definition failed_to_assign :: response where
  "failed_to_assign = Json 500 (Error_msg ''Failed to assign agent'')"

text \<open>
  The statements both routes share: filter by the radius, answer 400 when nothing is
  left, sort, take \<^verbatim>\<open>candidates[0]\<close>.  Reading a field of \<^verbatim>\<open>candidates[0]\<close> of an
  empty array throws, which the route's \<^verbatim>\<open>catch\<close> turns into the 500 response.
\<close>

definition pick_best :: "real \<Rightarrow> candidate list \<Rightarrow> response + candidate" where
  "pick_best ASSIGN_MAX_KM candidates0 =
     (let candidates = filter (within_radius ASSIGN_MAX_KM) candidates0
      in if candidates = [] then Inl (Json 400 (No_agents_within ASSIGN_MAX_KM))
         else (case js_sort cmp_load_d candidates of
                 [] \<Rightarrow> Inl failed_to_assign
               | best # _ \<Rightarrow> Inr best))"

text \<open>
  \<^verbatim>\<open>UPDATE orders SET agent_id = ?, status = 'Confirmed' WHERE id = ?\<close>
\<close>

definition update_order :: "db_state \<Rightarrow> int \<Rightarrow> int \<Rightarrow> db_state" where
  "update_order db agentId orderId =
     db\<lparr>orders :=
          map (\<lambda>ord. if o_id ord = orderId
                    then ord\<lparr>o_agent_id := Some agentId, o_status := ''Confirmed''\<rparr>
                    else ord)
              (orders db)\<rparr>"

definition assigned :: "candidate \<Rightarrow> response" where
  "assigned best = Json 200 (Agent_assigned (c_id best) (map_option toFixed2 (c_d best)))"

section \<open>\<^verbatim>\<open>POST /api/admin/orders/:orderId/assign\<close>\<close>

text \<open>
  \<^verbatim>\<open>SELECT id, lat, lng FROM agents WHERE status = 'Active' AND lat IS NOT NULL AND lng IS NOT NULL\<close>
\<close>

definition select_agents :: "db_state \<Rightarrow> agent_row list" where
  "select_agents db =
     [a \<leftarrow> agents db. a_status a = ''Active'' \<and> a_lat a \<noteq> None \<and> a_lng a \<noteq> None]"

text \<open>
  \<^verbatim>\<open>SELECT agent_id, COUNT(*) AS cnt FROM orders WHERE status IN (...) AND agent_id IS NOT NULL GROUP BY agent_id\<close>:
  one row for each agent that has an order in one of the statuses.
\<close>

definition select_loads :: "db_state \<Rightarrow> string list \<Rightarrow> (int \<times> int) list" where
  "select_loads db statuses =
     (let rows = [ord \<leftarrow> orders db. o_status ord \<in> set statuses];
          ids = remdups (List.map_filter o_agent_id rows)
      in map (\<lambda>a. (a, int (length [ord \<leftarrow> rows. o_agent_id ord = Some a]))) ids)"

text \<open>
  \<^verbatim>\<open>let loadMap = new Map(); try { ... loads.forEach(r => loadMap.set(r.agent_id, Number(r.cnt))) } catch (_) {}\<close>
\<close>

definition load_map :: "(query \<Rightarrow> bool) \<Rightarrow> db_state \<Rightarrow> string list \<Rightarrow> (int \<rightharpoonup> int)" where
  "load_map fails db statuses =
     (if fails Select_loads then Map.empty
      else fold (\<lambda>(agent_id, cnt) m. m(agent_id \<mapsto> cnt)) (select_loads db statuses) Map.empty)"

text \<open>
  \<^verbatim>\<open>agents.map(a => ({ id: a.id, d: dist(rlat, rlng, Number(a.lat), Number(a.lng)), load: loadMap.get(a.id) ?? 0 }))\<close>
\<close>

definition candidates_of ::
  "real \<Rightarrow> real \<Rightarrow> agent_row list \<Rightarrow> (int \<rightharpoonup> int) \<Rightarrow> candidate list" where
  "candidates_of rlat rlng ags loadMap =
     map (\<lambda>a. \<lparr>c_id = a_id a,
               c_d = dist rlat rlng (Number (a_lat a)) (Number (a_lng a)),
               c_load = (case loadMap (a_id a) of None \<Rightarrow> 0 | Some n \<Rightarrow> n)\<rparr>) ags"

definition admin_assign ::
  "env \<Rightarrow> (query \<Rightarrow> bool) \<Rightarrow> db_state \<Rightarrow> int \<Rightarrow> db_state \<times> response" where
  "admin_assign e fails db orderId =
     (let ASSIGN_MAX_KM = assign_max_km e;
          ASSIGN_LOAD_STATUSES = assign_load_statuses e
      in if fails Select_order then (db, failed_to_assign)
         else (case [ord \<leftarrow> orders db. o_id ord = orderId] of
           [] \<Rightarrow> (db, Json 404 (Error_msg ''Order not found''))
         | ord # _ \<Rightarrow>
           (case o_restaurant_id ord of
              None \<Rightarrow> (db, Json 400 (Error_msg ''Order missing restaurant reference''))
            | Some restaurant_id \<Rightarrow>
              if restaurant_id = 0
              then (db, Json 400 (Error_msg ''Order missing restaurant reference''))
              else if fails Select_restaurant then (db, failed_to_assign)
              else (case [r \<leftarrow> restaurants db. r_id r = restaurant_id] of
                [] \<Rightarrow> (db, Json 400 (Error_msg ''Restaurant location unavailable''))
              | r # _ \<Rightarrow>
                if r_latitude r = None \<or> r_longitude r = None
                then (db, Json 400 (Error_msg ''Restaurant location unavailable''))
                else
                  (let rlat = Number (r_latitude r);
                       rlng = Number (r_longitude r)
                   in if fails Select_agents then (db, failed_to_assign)
                      else
                        (let ags = select_agents db
                         in if ags = []
                            then (db, Json 400
                                   (Error_msg ''No active agents with location available''))
                            else
                              (let loadMap = load_map fails db ASSIGN_LOAD_STATUSES;
                                   candidates = candidates_of rlat rlng ags loadMap
                               in case pick_best ASSIGN_MAX_KM candidates of
                                    Inl resp \<Rightarrow> (db, resp)
                                  | Inr best \<Rightarrow>
                                      if fails Update_order then (db, failed_to_assign)
                                      else (update_order db (c_id best) orderId,
                                            assigned best))))))))"

section \<open>\<^verbatim>\<open>PUT /api/orders/:orderId/assign\<close>\<close>

text \<open>
  This route takes the pickup coordinate, the agents, the workloads and the radius from
  the request body.  \<open>b_agents\<close> is \<open>None\<close> when the field is not an array, \<open>b_loadMap\<close> and
  \<open>b_ASSIGN_MAX_KM\<close> are \<open>None\<close> when the field is absent (the radius then defaults to 10,
  \<^verbatim>\<open>loadMap?.[a.id]\<close> to \<^verbatim>\<open>undefined\<close>).
\<close>

record assign_body =
  b_rlat :: real
  b_rlng :: real
  b_agents :: "agent_row list option"
  b_loadMap :: "(int \<rightharpoonup> int) option"
  b_ASSIGN_MAX_KM :: "real option"

definition candidates_of_put ::
  "real \<Rightarrow> real \<Rightarrow> agent_row list \<Rightarrow> (int \<rightharpoonup> int) option \<Rightarrow> candidate list" where
  "candidates_of_put rlat rlng ags loadMap =
     map (\<lambda>a. \<lparr>c_id = a_id a,
               c_d = dist_put rlat rlng (Number (a_lat a)) (Number (a_lng a)),
               c_load = (case loadMap of
                           None \<Rightarrow> 0
                         | Some m \<Rightarrow> (case m (a_id a) of None \<Rightarrow> 0 | Some n \<Rightarrow> n))\<rparr>) ags"

definition put_assign ::
  "(query \<Rightarrow> bool) \<Rightarrow> db_state \<Rightarrow> int \<Rightarrow> assign_body \<Rightarrow> db_state \<times> response" where
  "put_assign fails db orderId b =
     (let ASSIGN_MAX_KM = (case b_ASSIGN_MAX_KM b of None \<Rightarrow> 10 | Some v \<Rightarrow> v)
      in case b_agents b of
           None \<Rightarrow> (db, Json 400 (Error_msg ''Missing data for assignment''))
         | Some ags \<Rightarrow>
             if b_rlat b = 0 \<or> b_rlng b = 0
             then (db, Json 400 (Error_msg ''Missing data for assignment''))
             else
               (let candidates = candidates_of_put (b_rlat b) (b_rlng b) ags (b_loadMap b)
                in case pick_best ASSIGN_MAX_KM candidates of
                     Inl resp \<Rightarrow> (db, resp)
                   | Inr best \<Rightarrow>
                       if fails Update_order then (db, failed_to_assign)
                       else (update_order db (c_id best) orderId, assigned best)))"

section \<open>Live agent locations\<close>

text \<open>
  The body fields of \<^verbatim>\<open>POST /api/delivery/location\<close> are JSON values; a missing field is
  \<^verbatim>\<open>undefined\<close>.  An object is the list of its properties.
\<close>

datatype jsval =
    JUndefined
  | JNull
  | JBool bool
  | JNum real
  | JStr string
  | JArr "jsval list"
  | JObj "(string \<times> jsval) list"

fun truthy :: "jsval \<Rightarrow> bool" where
  "truthy JUndefined = False"
| "truthy JNull = False"
| "truthy (JBool b) = b"
| "truthy (JNum x) = (x \<noteq> 0)"
| "truthy (JStr s) = (s \<noteq> [])"
| "truthy (JArr xs) = True"
| "truthy (JObj ps) = True"

text \<open>
  \<^verbatim>\<open>deliveryAgents\<close> is an object used as a dictionary: \<^verbatim>\<open>deliveryAgents[agent_id]\<close>
  converts the agent id to a property key, its string.  \<open>ToString\<close> is the conversion
  of a value to a string, which the template literal of the handler's log line applies
  as well.  The text of a number is a parameter \<open>num_str\<close>.  An array is the texts of
  its elements joined by commas, with nothing for \<^verbatim>\<open>null\<close>.  A parsed JSON object is
  \<^verbatim>\<open>[object Object]\<close>, unless it has a property \<^verbatim>\<open>toString\<close> of its own: that is not
  a function, \<^verbatim>\<open>valueOf\<close> gives no primitive either, and the conversion throws a
  \<^verbatim>\<open>TypeError\<close> (\<open>None\<close>).
\<close>

fun join_commas :: "string list \<Rightarrow> string" where
  "join_commas [] = []"
| "join_commas [s] = s"
| "join_commas (s # t # ss) = s @ '','' @ join_commas (t # ss)"

fun sequence :: "'a option list \<Rightarrow> 'a list option" where
  "sequence [] = Some []"
| "sequence (None # xs) = None"
| "sequence (Some x # xs) = (case sequence xs of None \<Rightarrow> None | Some ys \<Rightarrow> Some (x # ys))"

fun ToString :: "(real \<Rightarrow> string) \<Rightarrow> jsval \<Rightarrow> string option" where
  "ToString num_str JUndefined = Some ''undefined''"
| "ToString num_str JNull = Some ''null''"
| "ToString num_str (JBool b) = Some (if b then ''true'' else ''false'')"
| "ToString num_str (JNum x) = Some (num_str x)"
| "ToString num_str (JStr s) = Some s"
| "ToString num_str (JArr xs) =
     map_option join_commas
       (sequence (map (\<lambda>v. if v = JNull \<or> v = JUndefined then Some []
                             else ToString num_str v) xs))"
| "ToString num_str (JObj ps) =
     (if ''toString'' \<in> fst ` set ps then None else Some ''[object Object]'')"

record location =
  l_lat :: jsval
  l_lng :: jsval
  l_updatedAt :: int

text \<open>
  The state of the object \<^verbatim>\<open>deliveryAgents\<close>: its own properties in creation order, and
  its prototype when that is no longer \<^verbatim>\<open>Object.prototype\<close>.  Assigning to an existing
  key replaces the value where it is, a new key goes to the end.  Assigning to the key
  \<^verbatim>\<open>__proto__\<close> runs the setter inherited from \<^verbatim>\<open>Object.prototype\<close>: it makes the
  assigned object the prototype and creates no property.
\<close>

record agent_store =
  props :: "(string \<times> location) list"
  proto :: "location option"

definition empty_store :: agent_store where
  "empty_store = \<lparr>props = [], proto = None\<rparr>"

definition assign_property :: "string \<Rightarrow> location \<Rightarrow> agent_store \<Rightarrow> agent_store" where
  "assign_property k v store =
     (if k = ''__proto__'' then store\<lparr>proto := Some v\<rparr>
      else store\<lparr>props := AList.update k v (props store)\<rparr>)"

record report =
  rq_agent_id :: jsval
  rq_lat :: jsval
  rq_lng :: jsval

text \<open>An emitted \<^verbatim>\<open>agentLocation\<close> event \<^verbatim>\<open>{ agentId, lat, lng }\<close>.\<close>

datatype event = AgentLocation jsval jsval jsval

text \<open>
  The handler of \<^verbatim>\<open>POST /api/delivery/location\<close> at line 2247, as a function of the
  request body; \<open>now\<close> is the value of \<^verbatim>\<open>Date.now()\<close>.  The handler throws (\<open>Thrown\<close>)
  instead of answering when a conversion to a string throws: that of the agent id to
  the key, before anything is assigned or emitted, or that of \<^verbatim>\<open>lat\<close> or \<^verbatim>\<open>lng\<close> in
  the log line, after the assignment and the broadcast.
  How the application dispatches requests to the handler is not part of the model, nor
  are the socket listeners that assign to \<^verbatim>\<open>deliveryAgents\<close> as well.
\<close>

definition post_location ::
  "(real \<Rightarrow> string) \<Rightarrow> int \<Rightarrow> agent_store \<Rightarrow> report
     \<Rightarrow> agent_store \<times> event list \<times> response" where
  "post_location num_str now deliveryAgents req =
     (if \<not> truthy (rq_agent_id req) \<or> \<not> truthy (rq_lat req) \<or> \<not> truthy (rq_lng req)
      then (deliveryAgents, [], Json 400 (Error_msg ''Missing agent_id, lat or lng''))
      else (case ToString num_str (rq_agent_id req) of
              None \<Rightarrow> (deliveryAgents, [], Thrown)
            | Some k \<Rightarrow>
                (assign_property k
                   \<lparr>l_lat = rq_lat req, l_lng = rq_lng req, l_updatedAt = now\<rparr> deliveryAgents,
                 [AgentLocation (rq_agent_id req) (rq_lat req) (rq_lng req)],
                 if ToString num_str (rq_lat req) = None \<or> ToString num_str (rq_lng req) = None
                 then Thrown
                 else Json 200 Success)))"

text \<open>
  \<^verbatim>\<open>Object.entries\<close> lists the object's own properties: the keys that are array indices
  first, in ascending numeric order, then the other keys in creation order.
\<close>

definition is_digit :: "char \<Rightarrow> bool" where
  "is_digit c \<longleftrightarrow> 48 \<le> (of_char c :: nat) \<and> (of_char c :: nat) \<le> 57"

definition index_val :: "string \<Rightarrow> nat" where
  "index_val s = fold (\<lambda>c n. 10 * n + (of_char c - 48)) s 0"

definition is_array_index :: "string \<Rightarrow> bool" where
  "is_array_index s \<longleftrightarrow>
     s \<noteq> [] \<and> list_all is_digit s \<and> (s = ''0'' \<or> hd s \<noteq> CHR ''0'')
     \<and> index_val s < 2 ^ 32 - 1"

definition entries :: "agent_store \<Rightarrow> (string \<times> location) list" where
  "entries store =
     sort_key (\<lambda>p. index_val (fst p)) [p \<leftarrow> props store. is_array_index (fst p)]
     @ [p \<leftarrow> props store. \<not> is_array_index (fst p)]"

record active_row =
  ar_agent_id :: string
  ar_lat :: jsval
  ar_lng :: jsval
  ar_updatedAt :: int

text \<open>The handler of \<^verbatim>\<open>GET /api/delivery/active\<close>.\<close>

definition get_active :: "agent_store \<Rightarrow> active_row list" where
  "get_active deliveryAgents =
     map (\<lambda>(id, v). \<lparr>ar_agent_id = id, ar_lat = l_lat v, ar_lng = l_lng v,
                      ar_updatedAt = l_updatedAt v\<rparr>)
         (entries deliveryAgents)"

text \<open>A sequence of requests to the endpoint, each with its arrival time.\<close>

definition report_all :: "(real \<Rightarrow> string) \<Rightarrow> agent_store \<Rightarrow> (int \<times> report) list \<Rightarrow> agent_store" where
  "report_all num_str store reqs =
     fold (\<lambda>(now, req) s. fst (post_location num_str now s req)) reqs store"

section \<open>Auxiliary notions for the statements\<close>

text \<open>
  \<open>sa_of\<close> names the local \<^verbatim>\<open>sa\<close> of \<^verbatim>\<open>dist\<close>.  A coordinate is valid when the
  latitude is in \<open>[-90, 90]\<close> and the longitude in \<open>[-180, 180]\<close>.
\<close>

definition sa_of :: "real \<Rightarrow> real \<Rightarrow> real \<Rightarrow> real \<Rightarrow> real" where
  "sa_of aLat aLng bLat bLng =
     sin (toRad (bLat - aLat) / 2) * sin (toRad (bLat - aLat) / 2) +
     cos (toRad aLat) * cos (toRad bLat) *
     sin (toRad (bLng - aLng) / 2) * sin (toRad (bLng - aLng) / 2)"

definition valid_coordinate :: "real \<Rightarrow> real \<Rightarrow> bool" where
  "valid_coordinate lat lng \<longleftrightarrow> - 90 \<le> lat \<and> lat \<le> 90 \<and> - 180 \<le> lng \<and> lng \<le> 180"

text \<open>
  A report is accepted when the three fields are truthy; \<open>stored now req\<close> is the value
  the handler then assigns, and \<open>row_of\<close> the row of \<^verbatim>\<open>GET /api/delivery/active\<close> for a
  property.
\<close>

definition accepted :: "report \<Rightarrow> bool" where
  "accepted req \<longleftrightarrow> truthy (rq_agent_id req) \<and> truthy (rq_lat req) \<and> truthy (rq_lng req)"

definition stored :: "int \<Rightarrow> report \<Rightarrow> location" where
  "stored now req = \<lparr>l_lat = rq_lat req, l_lng = rq_lng req, l_updatedAt = now\<rparr>"

definition row_of :: "string \<Rightarrow> location \<Rightarrow> active_row" where
  "row_of k v = \<lparr>ar_agent_id = k, ar_lat = l_lat v, ar_lng = l_lng v, ar_updatedAt = l_updatedAt v\<rparr>"

text \<open>
  The decimal text of a natural number; it is the text JavaScript gives an integral
  number from 0 to \<open>10\<^sup>2\<^sup>1 - 1\<close>.  The examples use it for \<open>num_str\<close>.
\<close>

fun nat_text :: "nat \<Rightarrow> string" where
  "nat_text n = (if n < 10 then [''0123456789'' ! n]
                 else nat_text (n div 10) @ [''0123456789'' ! (n mod 10)])"

definition integral_text :: "real \<Rightarrow> string" where
  "integral_text x = nat_text (nat \<lfloor>x\<rfloor>)"

section \<open>Ranking order and the routes' intermediate values\<close>

text \<open>
  \<open>ranks_before a b\<close>: the comparator puts \<open>a\<close> strictly in front of \<open>b\<close>, by a
  smaller workload or, the workloads being equal, a smaller distance.
\<close>

definition ranks_before :: "candidate \<Rightarrow> candidate \<Rightarrow> bool" where
  "ranks_before a b \<longleftrightarrow>
     c_load a < c_load b
     \<or> (c_load a = c_load b
        \<and> (case c_d a of None \<Rightarrow> False
            | Some x \<Rightarrow> (case c_d b of None \<Rightarrow> False | Some y \<Rightarrow> x < y)))"

text \<open>
  The pickup coordinate as the admin route finds it: the restaurant of the first row
  for the order id, when the order has a truthy restaurant reference and the restaurant
  row has both coordinates.  \<open>admin_candidates\<close> is the route's \<^verbatim>\<open>candidates\<close> before
  the filter; \<open>put_max_km\<close> and \<open>put_candidates\<close> are the radius and the candidates of
  the PUT route.
\<close>

definition pickup_of :: "db_state \<Rightarrow> int \<Rightarrow> (real \<times> real) option" where
  "pickup_of db orderId =
     (case [ord \<leftarrow> orders db. o_id ord = orderId] of
        [] \<Rightarrow> None
      | ord # _ \<Rightarrow>
          (case o_restaurant_id ord of
             None \<Rightarrow> None
           | Some restaurant_id \<Rightarrow>
               if restaurant_id = 0 then None
               else (case [r \<leftarrow> restaurants db. r_id r = restaurant_id] of
                       [] \<Rightarrow> None
                     | r # _ \<Rightarrow>
                         (case r_latitude r of
                            None \<Rightarrow> None
                          | Some rlat \<Rightarrow>
                              (case r_longitude r of
                                 None \<Rightarrow> None
                               | Some rlng \<Rightarrow> Some (rlat, rlng))))))"

definition admin_candidates :: "env \<Rightarrow> (query \<Rightarrow> bool) \<Rightarrow> db_state \<Rightarrow> int \<Rightarrow> candidate list" where
  "admin_candidates e fails db orderId =
     (case pickup_of db orderId of
        None \<Rightarrow> []
      | Some (rlat, rlng) \<Rightarrow>
          candidates_of rlat rlng (select_agents db) (load_map fails db (assign_load_statuses e)))"

definition put_max_km :: "assign_body \<Rightarrow> real" where
  "put_max_km b = (case b_ASSIGN_MAX_KM b of None \<Rightarrow> 10 | Some v \<Rightarrow> v)"

definition put_candidates :: "assign_body \<Rightarrow> candidate list" where
  "put_candidates b =
     (case b_agents b of
        None \<Rightarrow> []
      | Some ags \<Rightarrow> candidates_of_put (b_rlat b) (b_rlng b) ags (b_loadMap b))"

section \<open>Scenarios\<close>

text \<open>
  No statement fails; the environment sets neither variable, so the radius is 10 km and
  the workload statuses are Pending, Confirmed and Picked.  The restaurant is at
  (17.3850, 78.4867); agent A is at (17.3860, 78.4870), agent B at (17.4000, 78.5100),
  agent C at (20.0, 80.0).  In \<open>scenario_db\<close> agent A has two active orders, agent B none,
  and order 1 is to be assigned.  In \<open>far_db\<close> the only agent is C.  In \<open>idle_db\<close>
  agents A and B have no orders.  In \<open>tie_db\<close> two agents stand at the place of agent
  A, the one with id 2 listed first.
\<close>

definition no_faults :: "query \<Rightarrow> bool" where
  "no_faults q = False"

definition scenario_env :: env where
  "scenario_env = \<lparr>env_ASSIGN_MAX_KM = None, env_ASSIGN_LOAD_STATUSES = None\<rparr>"

definition agent_A :: agent_row where
  "agent_A = \<lparr>a_id = 1, a_status = ''Active'', a_lat = Some 17.3860, a_lng = Some 78.4870\<rparr>"

definition agent_B :: agent_row where
  "agent_B = \<lparr>a_id = 2, a_status = ''Active'', a_lat = Some 17.4000, a_lng = Some 78.5100\<rparr>"

definition agent_C :: agent_row where
  "agent_C = \<lparr>a_id = 3, a_status = ''Active'', a_lat = Some 20.0, a_lng = Some 80.0\<rparr>"

definition the_restaurant :: restaurant_row where
  "the_restaurant = \<lparr>r_id = 1, r_latitude = Some 17.3850, r_longitude = Some 78.4867\<rparr>"

definition new_order :: order_row where
  "new_order = \<lparr>o_id = 1, o_restaurant_id = Some 1, o_agent_id = None, o_status = ''Pending''\<rparr>"

definition scenario_db :: db_state where
  "scenario_db =
     \<lparr>orders = [new_order,
                \<lparr>o_id = 2, o_restaurant_id = Some 1, o_agent_id = Some 1, o_status = ''Confirmed''\<rparr>,
                \<lparr>o_id = 3, o_restaurant_id = Some 1, o_agent_id = Some 1, o_status = ''Picked''\<rparr>],
      restaurants = [the_restaurant],
      agents = [agent_A, agent_B]\<rparr>"

definition far_db :: db_state where
  "far_db = \<lparr>orders = [new_order], restaurants = [the_restaurant], agents = [agent_C]\<rparr>"

definition idle_db :: db_state where
  "idle_db = \<lparr>orders = [new_order], restaurants = [the_restaurant], agents = [agent_A, agent_B]\<rparr>"

definition tie_db :: db_state where
  "tie_db = \<lparr>orders = [new_order], restaurants = [the_restaurant],
             agents = [agent_A\<lparr>a_id := 2\<rparr>, agent_A\<lparr>a_id := 1\<rparr>]\<rparr>"

text \<open>
  The agent id of a 200 response of an assignment route.
\<close>

fun assigned_agent :: "response \<Rightarrow> int option" where
  "assigned_agent (Json code (Agent_assigned aid dk)) = (if code = 200 then Some aid else None)"
| "assigned_agent _ = None"

text \<open>
  A request body for the PUT route with two agents at the place of agent A, the agent
  with id 2 listed first, and no workloads.
\<close>

definition tie_body :: assign_body where
  "tie_body = \<lparr>b_rlat = 17.3850, b_rlng = 78.4867,
                b_agents = Some [agent_A\<lparr>a_id := 2\<rparr>, agent_A\<lparr>a_id := 1\<rparr>],
                b_loadMap = None, b_ASSIGN_MAX_KM = None\<rparr>"

text \<open>
  Only the workload query fails.  \<open>active_orders_of db statuses a\<close> are the orders the
  workload query counts for agent \<open>a\<close>.
\<close>

definition loads_fail :: "query \<Rightarrow> bool" where
  "loads_fail q = (q = Select_loads)"

definition active_orders_of :: "db_state \<Rightarrow> string list \<Rightarrow> int \<Rightarrow> order_row list" where
  "active_orders_of db statuses a =
     [ord \<leftarrow> orders db. o_status ord \<in> set statuses \<and> o_agent_id ord = Some a]"

section \<open>Properties of the haversine distance\<close>

lemma dist_sa: "dist aLat aLng bLat bLng =
  (case js_sqrt (sa_of aLat aLng bLat bLng) of None \<Rightarrow> None
   | Some p \<Rightarrow> (case js_sqrt (1 - sa_of aLat aLng bLat bLng) of None \<Rightarrow> None
       | Some q \<Rightarrow> Some (R * (2 * atan2 p q))))"
  unfolding dist_def sa_of_def Let_def by (rule refl)

lemma cos_toRad_nonneg:
  assumes "- 90 \<le> lat" "lat \<le> 90"
  shows "0 \<le> cos (toRad lat)"
proof (rule cos_ge_zero)
  have "(- 90) * pi \<le> lat * pi"
    using assms(1) pi_gt_zero by (intro mult_right_mono) simp_all
  then show "- (pi / 2) \<le> toRad lat" by (simp add: toRad_def)
  have "lat * pi \<le> 90 * pi"
    using assms(2) pi_gt_zero by (intro mult_right_mono) simp_all
  then show "toRad lat \<le> pi / 2" by (simp add: toRad_def)
qed

lemma cos_prod_le:
  fixes x y :: real
  shows "cos x * cos y \<le> cos ((y - x) / 2) ^ 2"
proof -
  have "cos x * cos y = (cos (x - y) + cos (x + y)) / 2"
    by (rule cos_times_cos)
  also have "\<dots> \<le> (cos (x - y) + 1) / 2"
    by simp
  also have "cos (x - y) = cos (2 * ((y - x) / 2))"
  proof -
    have "2 * ((y - x) / 2) = - (x - y)" by simp
    then show ?thesis by (simp only: cos_minus)
  qed
  also have "(cos (2 * ((y - x) / 2)) + 1) / 2 = cos ((y - x) / 2) ^ 2"
    unfolding cos_double_cos by simp
  finally show ?thesis .
qed

lemma toRad_diff: "toRad (b - a) = toRad b - toRad a"
  by (simp add: toRad_def left_diff_distrib diff_divide_distrib)

lemma sa_of_bounds:
  assumes "valid_coordinate aLat aLng" "valid_coordinate bLat bLng"
  shows "0 \<le> sa_of aLat aLng bLat bLng" "sa_of aLat aLng bLat bLng \<le> 1"
proof -
  let ?u = "toRad (bLat - aLat) / 2" and ?v = "toRad (bLng - aLng) / 2"
  let ?k = "cos (toRad aLat) * cos (toRad bLat)"
  have k0: "0 \<le> ?k"
    using assms by (simp add: valid_coordinate_def cos_toRad_nonneg)
  have s: "sa_of aLat aLng bLat bLng = sin ?u ^ 2 + ?k * sin ?v ^ 2"
    by (simp add: sa_of_def power2_eq_square mult.assoc)
  show "0 \<le> sa_of aLat aLng bLat bLng"
    unfolding s using k0 by simp
  have "?k * sin ?v ^ 2 \<le> ?k * 1"
  proof (rule mult_left_mono [OF _ k0])
    show "sin ?v ^ 2 \<le> 1"
      using sin_cos_squared_add [of ?v] zero_le_power2 [of "cos ?v"] by linarith
  qed
  also have "?k \<le> cos ?u ^ 2"
    using cos_prod_le [of "toRad aLat" "toRad bLat"] by (simp add: toRad_diff)
  finally have "?k * sin ?v ^ 2 \<le> cos ?u ^ 2"
    by simp
  then show "sa_of aLat aLng bLat bLng \<le> 1"
    unfolding s using sin_cos_squared_add [of ?u] by linarith
qed

lemma atan2_nonneg: "0 \<le> y \<Longrightarrow> 0 \<le> x \<Longrightarrow> 0 \<le> atan2 y x"
  by (auto simp: atan2_def)

section \<open>Bounds on the haversine distance\<close>

lemma arctan_le_self:
  assumes "0 \<le> x"
  shows "arctan x \<le> x"
proof (cases "x = 0")
  case True
  then show ?thesis by simp
next
  case False
  with assms have "0 < x" by simp
  then obtain z where z: "0 < z" "z < x" "arctan x - arctan 0 = (x - 0) * inverse (1 + z\<^sup>2)"
    using MVT2 [of 0 x arctan "\<lambda>u. inverse (1 + u\<^sup>2)"] DERIV_arctan by blast
  have "inverse (1 + z\<^sup>2) \<le> 1"
    by (simp add: inverse_le_1_iff)
  then have "x * inverse (1 + z\<^sup>2) \<le> x * 1"
    using \<open>0 < x\<close> by (intro mult_left_mono) simp_all
  with z(3) show ?thesis by simp
qed

lemma arctan_ge_half:
  assumes "0 \<le> x" "x \<le> 1"
  shows "x / 2 \<le> arctan x"
proof (cases "x = 0")
  case True
  then show ?thesis by simp
next
  case False
  with assms have "0 < x" by simp
  then obtain z where z: "0 < z" "z < x" "arctan x - arctan 0 = (x - 0) * inverse (1 + z\<^sup>2)"
    using MVT2 [of 0 x arctan "\<lambda>u. inverse (1 + u\<^sup>2)"] DERIV_arctan by blast
  have "z\<^sup>2 \<le> 1"
    using z assms by (simp add: power_le_one)
  then have "inverse 2 \<le> inverse (1 + z\<^sup>2)"
    by (intro le_imp_inverse_le) (simp_all add: add_pos_nonneg)
  then have "1 / 2 \<le> inverse (1 + z\<^sup>2)"
    by simp
  then have "x * (1 / 2) \<le> x * inverse (1 + z\<^sup>2)"
    using \<open>0 < x\<close> by (intro mult_left_mono) simp_all
  with z(3) show ?thesis by simp
qed

lemma sin_ge_half:
  fixes x :: real
  assumes "0 \<le> x" "x \<le> 2 / 3"
  shows "x / 2 \<le> sin x"
proof (cases "x = 0")
  case True
  then show ?thesis by simp
next
  case False
  with assms have "0 < x" by simp
  then obtain z where z: "0 < z" "z < x" "sin x - sin 0 = (x - 0) * cos z"
    using MVT2 [of 0 x sin cos] DERIV_sin by blast
  have "z \<le> pi / 3"
    using z assms pi_ge_two by simp
  then have "cos (pi / 3) \<le> cos z"
    using z(1) pi_gt_zero by (intro cos_monotone_0_pi_le) simp_all
  then have "1 / 2 \<le> cos z"
    by (simp add: cos_60)
  then have "x * (1 / 2) \<le> x * cos z"
    using \<open>0 < x\<close> by (intro mult_left_mono) simp_all
  with z(3) show ?thesis by simp
qed

lemma sa_of_sq:
  "sa_of aLat aLng bLat bLng =
     sin (toRad (bLat - aLat) / 2) ^ 2
     + cos (toRad aLat) * cos (toRad bLat) * sin (toRad (bLng - aLng) / 2) ^ 2"
  by (simp add: sa_of_def power2_eq_square mult.assoc)

lemma sin_toRad_sq_le: "sin (toRad d / 2) ^ 2 \<le> d\<^sup>2 / 8100"
proof -
  have "\<bar>sin (toRad d / 2)\<bar> \<le> \<bar>toRad d / 2\<bar>"
    by (rule abs_sin_x_le_abs_x)
  also have "\<bar>toRad d / 2\<bar> = (\<bar>d\<bar> * pi) / 360"
    by (simp add: toRad_def abs_mult)
  also have "\<dots> \<le> (\<bar>d\<bar> * 4) / 360"
  proof -
    have "\<bar>d\<bar> * pi \<le> \<bar>d\<bar> * 4"
      using pi_less_4 by (intro mult_left_mono) simp_all
    then show ?thesis by (simp add: mult.commute)
  qed
  finally have "\<bar>sin (toRad d / 2)\<bar> \<le> \<bar>d / 90\<bar>"
    by simp
  then have "sin (toRad d / 2) ^ 2 \<le> (d / 90)\<^sup>2"
    by (simp only: abs_le_square_iff)
  then show ?thesis
    by (simp add: power_divide)
qed

lemma cos_prod_le_one:
  fixes x y :: real
  assumes "0 \<le> cos x" "0 \<le> cos y"
  shows "cos x * cos y \<le> 1"
proof -
  have "cos x * cos y \<le> 1 * 1"
    using assms by (intro mult_mono) simp_all
  then show ?thesis by simp
qed

lemma sa_of_upper:
  assumes "valid_coordinate aLat aLng" "valid_coordinate bLat bLng"
  shows "sa_of aLat aLng bLat bLng \<le> ((bLat - aLat)\<^sup>2 + (bLng - aLng)\<^sup>2) / 8100"
proof -
  let ?k = "cos (toRad aLat) * cos (toRad bLat)"
  let ?w = "sin (toRad (bLng - aLng) / 2) ^ 2"
  have c: "0 \<le> cos (toRad aLat)" "0 \<le> cos (toRad bLat)"
    using assms by (simp_all add: valid_coordinate_def cos_toRad_nonneg)
  have "?k * ?w \<le> 1 * ?w"
    using cos_prod_le_one [OF c] by (intro mult_right_mono) simp_all
  also have "\<dots> \<le> (bLng - aLng)\<^sup>2 / 8100"
    using sin_toRad_sq_le [of "bLng - aLng"] by simp
  finally have "?k * ?w \<le> (bLng - aLng)\<^sup>2 / 8100" .
  with sin_toRad_sq_le [of "bLat - aLat"] show ?thesis
    unfolding sa_of_sq by (simp add: add_divide_distrib)
qed

lemma dist_value:
  assumes "valid_coordinate aLat aLng" "valid_coordinate bLat bLng"
  shows "dist aLat aLng bLat bLng
         = Some (R * (2 * atan2 (sqrt (sa_of aLat aLng bLat bLng))
                                (sqrt (1 - sa_of aLat aLng bLat bLng))))"
  using sa_of_bounds [OF assms] by (simp add: dist_sa js_sqrt_def)

lemma dist_le:
  assumes v: "valid_coordinate aLat aLng" "valid_coordinate bLat bLng"
    and t: "((bLat - aLat)\<^sup>2 + (bLng - aLng)\<^sup>2) / 8100 \<le> t\<^sup>2" "0 \<le> t"
    and q: "0 < q" "q\<^sup>2 + t\<^sup>2 \<le> 1"
  shows "\<exists>x. dist aLat aLng bLat bLng = Some x \<and> 0 \<le> x \<and> x \<le> 12742 * t / q"
proof -
  let ?s = "sa_of aLat aLng bLat bLng"
  have s: "0 \<le> ?s" "?s \<le> t\<^sup>2"
    using sa_of_bounds(1) [OF v] sa_of_upper [OF v] t(1) by simp_all
  have p: "sqrt ?s \<le> t"
    using s t(2) by (intro real_le_lsqrt) simp_all
  have "q\<^sup>2 \<le> 1 - ?s"
    using s q(2) by simp
  then have q': "q \<le> sqrt (1 - ?s)"
    by (rule real_le_rsqrt)
  with q(1) have pos: "0 < sqrt (1 - ?s)" by linarith
  have "atan2 (sqrt ?s) (sqrt (1 - ?s)) = arctan (sqrt ?s / sqrt (1 - ?s))"
    using pos by (simp add: atan2_def)
  also have "\<dots> \<le> sqrt ?s / sqrt (1 - ?s)"
    using s(1) pos by (intro arctan_le_self) simp
  also have "\<dots> \<le> t / q"
    using p q' q(1) s(1) t(2) by (intro frac_le) simp_all
  finally have a: "atan2 (sqrt ?s) (sqrt (1 - ?s)) \<le> t / q" .
  have n: "0 \<le> atan2 (sqrt ?s) (sqrt (1 - ?s))"
    using s(1) pos by (intro atan2_nonneg) simp_all
  show ?thesis
    using a n by (simp add: dist_value [OF v] R_def)
qed

lemma dist_ge:
  assumes v: "valid_coordinate aLat aLng" "valid_coordinate bLat bLng"
    and d: "\<bar>bLat - aLat\<bar> \<le> 60"
  shows "\<exists>x. dist aLat aLng bLat bLng = Some x \<and> 6371 * \<bar>bLat - aLat\<bar> / 360 \<le> x"
proof -
  let ?s = "sa_of aLat aLng bLat bLng"
  let ?u = "toRad (bLat - aLat) / 2"
  let ?t = "\<bar>bLat - aLat\<bar> / 360"
  have s: "0 \<le> ?s" "?s \<le> 1"
    using sa_of_bounds [OF v] by simp_all
  have au: "\<bar>?u\<bar> = \<bar>bLat - aLat\<bar> * pi / 360"
    by (simp add: toRad_def abs_mult)
  have "\<bar>bLat - aLat\<bar> * pi \<le> 60 * 4"
    using d pi_less_4 by (intro mult_mono) simp_all
  then have u1: "\<bar>?u\<bar> \<le> 2 / 3"
    unfolding au by (simp add: mult.commute)
  have "\<bar>bLat - aLat\<bar> * 2 \<le> \<bar>bLat - aLat\<bar> * pi"
    using pi_ge_two by (intro mult_left_mono) simp_all
  then have u2: "\<bar>bLat - aLat\<bar> / 180 \<le> \<bar>?u\<bar>"
    unfolding au by (simp add: mult.commute)
  have "\<bar>?u\<bar> / 2 \<le> sin \<bar>?u\<bar>"
    using u1 by (intro sin_ge_half) simp_all
  with u2 have "?t \<le> sin \<bar>?u\<bar>" by simp
  also have "sin \<bar>?u\<bar> = \<bar>sin ?u\<bar>"
  proof (cases "0 \<le> ?u")
    case True
    then have "0 \<le> sin ?u"
      using u1 pi_ge_two by (intro sin_ge_zero) simp_all
    with True show ?thesis by simp
  next
    case False
    then have "0 \<le> sin (- ?u)"
      using u1 pi_ge_two by (intro sin_ge_zero) simp_all
    with False show ?thesis by simp
  qed
  finally have t1: "?t \<le> \<bar>sin ?u\<bar>" .
  have k: "0 \<le> cos (toRad aLat) * cos (toRad bLat)"
    using v by (simp add: valid_coordinate_def cos_toRad_nonneg)
  have "sin ?u ^ 2 \<le> ?s"
    unfolding sa_of_sq using k by simp
  then have "\<bar>sin ?u\<bar> \<le> sqrt ?s"
    by (metis real_sqrt_abs real_sqrt_le_iff)
  with t1 have t2: "?t \<le> sqrt ?s" by simp
  have t3: "?t \<le> 1" using d by simp
  have "?t / 2 \<le> arctan ?t"
    using t3 by (intro arctan_ge_half) simp_all
  also have "arctan ?t \<le> atan2 (sqrt ?s) (sqrt (1 - ?s))"
  proof (cases "?s = 1")
    case True
    have "arctan ?t \<le> pi / 2"
      using arctan_ubound [of ?t] by simp
    with True show ?thesis by (simp add: atan2_def)
  next
    case False
    with s have pos: "0 < sqrt (1 - ?s)" by simp
    have "sqrt (1 - ?s) \<le> 1"
      using s by simp
    then have "sqrt ?s / 1 \<le> sqrt ?s / sqrt (1 - ?s)"
      using pos s(1) by (intro divide_left_mono) simp_all
    then have "sqrt ?s \<le> sqrt ?s / sqrt (1 - ?s)" by simp
    with t2 have "?t \<le> sqrt ?s / sqrt (1 - ?s)" by (rule order_trans)
    then have "arctan ?t \<le> arctan (sqrt ?s / sqrt (1 - ?s))"
      by (rule arctan_monotone')
    with pos show ?thesis by (simp add: atan2_def)
  qed
  finally have "?t / 2 \<le> atan2 (sqrt ?s) (sqrt (1 - ?s))" .
  then show ?thesis
    by (simp add: dist_value [OF v] R_def)
qed

section \<open>The ranking\<close>

lemma set_insert_cmp: "set (insert_cmp f x ys) = insert x (set ys)"
  by (induction ys) auto

lemma set_js_sort: "set (js_sort f xs) = set xs"
  by (induction xs) (auto simp: set_insert_cmp)

lemma js_sort_Nil_iff: "js_sort f xs = [] \<longleftrightarrow> xs = []"
  using set_js_sort [of f xs] by (metis set_empty)

lemma hd_insert_cmp:
  "insert_cmp f x ys = b # rest \<Longrightarrow>
     (ys = [] \<and> b = x) \<or> (\<exists>y ys'. ys = y # ys' \<and> (if not_after (f x y) then b = x else b = y))"
  by (cases ys) (auto split: if_splits)

lemma js_sort_first:
  assumes total: "\<And>a b. P a \<Longrightarrow> P b \<Longrightarrow> not_after (f a b) \<or> not_after (f b a)"
    and trans: "\<And>a b c. P a \<Longrightarrow> P b \<Longrightarrow> P c \<Longrightarrow>
                  not_after (f a b) \<Longrightarrow> not_after (f b c) \<Longrightarrow> not_after (f a c)"
    and all: "list_all P xs"
    and srt: "js_sort f xs = b # rest"
  shows "\<exists>pre post. xs = pre @ b # post
           \<and> (\<forall>c \<in> set pre. \<not> not_after (f c b))
           \<and> (\<forall>c \<in> set post. not_after (f b c))"
  using all srt
proof (induction xs arbitrary: b rest)
  case Nil
  from Nil(2) show ?case by simp
next
  case (Cons x xs)
  from Cons.prems(2) have ins: "insert_cmp f x (js_sort f xs) = b # rest" by simp
  from Cons.prems(1) have px: "P x" and pxs: "list_all P xs" by simp_all
  show ?case
  proof (cases "js_sort f xs")
    case Nil
    then have "xs = []" by (simp add: js_sort_Nil_iff)
    with ins Nil have "b = x" by simp
    with \<open>xs = []\<close> have "x # xs = [] @ b # [] \<and> (\<forall>c \<in> set []. \<not> not_after (f c b))
           \<and> (\<forall>c \<in> set []. not_after (f b c))"
      by simp
    then show ?thesis by (intro exI)
  next
    case sorted: (Cons y ys')
    from Cons.IH [OF pxs sorted]
    obtain pre post where pp: "xs = pre @ y # post"
      and pre: "\<forall>c \<in> set pre. \<not> not_after (f c y)"
      and post: "\<forall>c \<in> set post. not_after (f y c)"
      by blast
    have yin: "y \<in> set xs" unfolding pp by simp
    have p: "P c" if "c \<in> set xs" for c
      using pxs that by (simp add: list_all_iff)
    have py: "P y" using yin by (rule p)
    have yy: "not_after (f y y)"
      using total [OF py py] by simp
    show ?thesis
    proof (cases "not_after (f x y)")
      case True
      with ins sorted have b: "b = x" by simp
      have "not_after (f x c)" if c: "c \<in> set xs" for c
      proof -
        have pc: "P c" using c by (rule p)
        have "not_after (f y c)"
        proof (cases "c \<in> set pre")
          case True
          with pre have "\<not> not_after (f c y)" by (rule bspec)
          with total [OF pc py] show ?thesis by simp
        next
          case False
          with c have "c = y \<or> c \<in> set post" unfolding pp by simp
          with post yy show ?thesis by (elim disjE) simp_all
        qed
        with True show ?thesis by (rule trans [OF px py pc])
      qed
      then have "x # xs = [] @ b # xs \<and> (\<forall>c \<in> set []. \<not> not_after (f c b))
           \<and> (\<forall>c \<in> set xs. not_after (f b c))"
        using b by simp
      then show ?thesis by (intro exI)
    next
      case False
      with ins sorted have b: "b = y" by simp
      have "x # xs = (x # pre) @ b # post \<and> (\<forall>c \<in> set (x # pre). \<not> not_after (f c b))
           \<and> (\<forall>c \<in> set post. not_after (f b c))"
        using b pp pre post False by simp
      then show ?thesis by (intro exI)
    qed
  qed
qed

lemma not_after_cmp:
  assumes "c_d a \<noteq> None" "c_d b \<noteq> None"
  shows "not_after (cmp_load_d a b) \<longleftrightarrow> \<not> ranks_before b a"
  using assms by (auto simp: not_after_def cmp_load_d_def ranks_before_def)

lemma within_radius_Some: "within_radius m c \<Longrightarrow> \<exists>x. c_d c = Some x \<and> x \<le> m"
  by (auto simp: within_radius_def split: option.splits)

lemma pick_best_Inr:
  assumes "pick_best m cs = Inr best"
  shows "\<exists>pre post. filter (within_radius m) cs = pre @ best # post
           \<and> (\<forall>c \<in> set pre. ranks_before best c)
           \<and> (\<forall>c \<in> set post. \<not> ranks_before c best)"
proof -
  let ?cs = "filter (within_radius m) cs"
  from assms obtain rest where srt: "js_sort cmp_load_d ?cs = best # rest"
    by (auto simp: pick_best_def Let_def split: if_splits list.splits)
  have some: "\<exists>x. c_d c = Some x" if "c \<in> set ?cs" for c
    using that within_radius_Some [of m c] by auto
  have "\<exists>pre post. ?cs = pre @ best # post
           \<and> (\<forall>c \<in> set pre. \<not> not_after (cmp_load_d c best))
           \<and> (\<forall>c \<in> set post. not_after (cmp_load_d best c))"
  proof (rule js_sort_first [where P = "\<lambda>c. c_d c \<noteq> None", OF _ _ _ srt])
    fix a b :: candidate
    assume "c_d a \<noteq> None" "c_d b \<noteq> None"
    then show "not_after (cmp_load_d a b) \<or> not_after (cmp_load_d b a)"
      by (auto simp: not_after_def cmp_load_d_def)
  next
    fix a b c :: candidate
    assume "c_d a \<noteq> None" "c_d b \<noteq> None" "c_d c \<noteq> None"
      and "not_after (cmp_load_d a b)" and "not_after (cmp_load_d b c)"
    then show "not_after (cmp_load_d a c)"
      by (auto simp: not_after_def cmp_load_d_def split: if_splits)
  next
    show "list_all (\<lambda>c. c_d c \<noteq> None) ?cs"
      using some by (auto simp: list_all_iff)
  qed
  then obtain pre post where pp: "?cs = pre @ best # post"
    "\<forall>c \<in> set pre. \<not> not_after (cmp_load_d c best)"
    "\<forall>c \<in> set post. not_after (cmp_load_d best c)"
    by blast
  have bin: "best \<in> set ?cs" using pp(1) by simp
  have "ranks_before best c" if "c \<in> set pre" for c
  proof -
    have "c \<in> set ?cs" using that pp(1) by simp
    with bin have "c_d c \<noteq> None" "c_d best \<noteq> None"
      using some by auto
    then have "not_after (cmp_load_d c best) \<longleftrightarrow> \<not> ranks_before best c"
      by (rule not_after_cmp)
    with pp(2) that show ?thesis
      by blast
  qed
  moreover have "\<not> ranks_before c best" if "c \<in> set post" for c
  proof -
    have "c \<in> set ?cs" using that pp(1) by simp
    with bin have "c_d best \<noteq> None" "c_d c \<noteq> None"
      using some by auto
    then have "not_after (cmp_load_d best c) \<longleftrightarrow> \<not> ranks_before c best"
      by (rule not_after_cmp)
    with pp(3) that show ?thesis
      by blast
  qed
  ultimately show ?thesis using pp(1) by blast
qed

lemma pick_best_Inl:
  "pick_best m cs = Inl resp \<longleftrightarrow>
     filter (within_radius m) cs = [] \<and> resp = Json 400 (No_agents_within m)"
  by (auto simp: pick_best_def Let_def js_sort_Nil_iff split: list.splits)

lemma pick_best_nonempty:
  assumes "c \<in> set cs" "within_radius m c"
  shows "\<exists>best. pick_best m cs = Inr best"
proof (cases "pick_best m cs")
  case (Inl resp)
  then have "filter (within_radius m) cs = []" by (simp add: pick_best_Inl)
  with assms show ?thesis by (auto simp: filter_empty_conv)
next
  case (Inr best)
  then show ?thesis by blast
qed

lemma pick_best_filter: "pick_best m (filter (within_radius m) cs) = pick_best m cs"
  by (simp add: pick_best_def)

section \<open>The assignment routes\<close>

lemma admin_assign_loaded:
  assumes "\<not> fails Select_order" "\<not> fails Select_restaurant" "\<not> fails Select_agents"
    and "pickup_of db orderId = Some (rlat, rlng)" and "select_agents db \<noteq> []"
  shows "admin_assign e fails db orderId =
     (case pick_best (assign_max_km e) (admin_candidates e fails db orderId) of
        Inl resp \<Rightarrow> (db, resp)
      | Inr best \<Rightarrow>
          if fails Update_order then (db, failed_to_assign)
          else (update_order db (c_id best) orderId, assigned best))"
  using assms
  by (auto simp: admin_assign_def admin_candidates_def pickup_of_def Let_def Number_def
      split: list.splits option.splits if_splits sum.splits)

lemma pick_best_not_200: "pick_best m cs = Inl resp \<Longrightarrow> resp \<noteq> Json 200 bd"
  by (simp add: pick_best_Inl)

lemma admin_assign_Assigned:
  assumes "admin_assign e fails db orderId = (db', Json 200 (Agent_assigned aid dk))"
  shows "\<not> fails Select_order \<and> \<not> fails Select_restaurant \<and> \<not> fails Select_agents
         \<and> \<not> fails Update_order
         \<and> (\<exists>rlat rlng. pickup_of db orderId = Some (rlat, rlng))
         \<and> select_agents db \<noteq> []
         \<and> (\<exists>best. pick_best (assign_max_km e) (admin_candidates e fails db orderId) = Inr best
                \<and> aid = c_id best \<and> dk = map_option toFixed2 (c_d best)
                \<and> db' = update_order db aid orderId)"
  using assms
  by (auto simp: admin_assign_def admin_candidates_def pickup_of_def Let_def Number_def
      failed_to_assign_def assigned_def
      split: list.splits option.splits if_splits sum.splits dest: pick_best_not_200)

lemma put_assign_loaded:
  assumes "b_agents b = Some ags" "b_rlat b \<noteq> 0" "b_rlng b \<noteq> 0"
  shows "put_assign fails db orderId b =
     (case pick_best (put_max_km b) (put_candidates b) of
        Inl resp \<Rightarrow> (db, resp)
      | Inr best \<Rightarrow>
          if fails Update_order then (db, failed_to_assign)
          else (update_order db (c_id best) orderId, assigned best))"
  using assms
  by (auto simp: put_assign_def put_candidates_def put_max_km_def Let_def
      split: option.splits sum.splits)

lemma put_assign_Assigned:
  assumes "put_assign fails db orderId b = (db', Json 200 (Agent_assigned aid dk))"
  shows "\<not> fails Update_order \<and> b_agents b \<noteq> None \<and> b_rlat b \<noteq> 0 \<and> b_rlng b \<noteq> 0
         \<and> (\<exists>best. pick_best (put_max_km b) (put_candidates b) = Inr best
                \<and> aid = c_id best \<and> dk = map_option toFixed2 (c_d best)
                \<and> db' = update_order db aid orderId)"
  using assms
  by (auto simp: put_assign_def put_candidates_def put_max_km_def Let_def
      failed_to_assign_def assigned_def
      split: option.splits if_splits sum.splits dest: pick_best_not_200)

section \<open>The scenarios\<close>

lemma default_statuses: "assign_load_statuses scenario_env = [''Pending'', ''Confirmed'', ''Picked'']"
  by (simp add: assign_load_statuses_def scenario_env_def trim_def is_space_def)

lemma default_max_km: "assign_max_km scenario_env = 10"
  by (simp add: assign_max_km_def scenario_env_def)

lemma dist_A:
  "\<exists>x. dist 17.3850 78.4867 17.3860 78.4870 = Some x \<and> 0 \<le> x \<and> x \<le> 0.16"
proof -
  have v: "valid_coordinate 17.3850 78.4867" "valid_coordinate 17.3860 78.4870"
    by (simp_all add: valid_coordinate_def)
  have "\<exists>x. dist 17.3850 78.4867 17.3860 78.4870 = Some x \<and> 0 \<le> x
            \<and> x \<le> 12742 * (117 / 10000000) / (99 / 100)"
    by (rule dist_le [OF v]) (simp_all add: power2_eq_square)
  then show ?thesis by auto
qed

lemma dist_B:
  "\<exists>x. dist 17.3850 78.4867 17.4000 78.5100 = Some x \<and> 0.26 \<le> x \<and> x \<le> 4"
proof -
  have v: "valid_coordinate 17.3850 78.4867" "valid_coordinate 17.4000 78.5100"
    by (simp_all add: valid_coordinate_def)
  have "\<exists>x. dist 17.3850 78.4867 17.4000 78.5100 = Some x \<and> 0 \<le> x
            \<and> x \<le> 12742 * (31 / 100000) / (99 / 100)"
    by (rule dist_le [OF v]) (simp_all add: power2_eq_square)
  moreover have "\<exists>x. dist 17.3850 78.4867 17.4000 78.5100 = Some x
            \<and> 6371 * \<bar>17.4000 - 17.3850\<bar> / 360 \<le> x"
    by (rule dist_ge [OF v]) simp
  ultimately show ?thesis by auto
qed

lemma dist_C:
  "\<exists>x. dist 17.3850 78.4867 20.0 80.0 = Some x \<and> 46 \<le> x"
proof -
  have v: "valid_coordinate 17.3850 78.4867" "valid_coordinate 20.0 80.0"
    by (simp_all add: valid_coordinate_def)
  have "\<exists>x. dist 17.3850 78.4867 20.0 80.0 = Some x
            \<and> 6371 * \<bar>20.0 - 17.3850\<bar> / 360 \<le> x"
    by (rule dist_ge [OF v]) simp
  then show ?thesis by auto
qed

lemmas scenario_defs = scenario_db_def far_db_def idle_db_def tie_db_def agent_A_def agent_B_def
  agent_C_def the_restaurant_def new_order_def

lemma pickup_scenario:
  "pickup_of scenario_db 1 = Some (17.3850, 78.4867)"
  "pickup_of far_db 1 = Some (17.3850, 78.4867)"
  "pickup_of idle_db 1 = Some (17.3850, 78.4867)"
  "pickup_of tie_db 1 = Some (17.3850, 78.4867)"
  by (simp_all add: pickup_of_def scenario_defs)

lemma load_map_scenario:
  "load_map no_faults scenario_db [''Pending'', ''Confirmed'', ''Picked''] = [1 \<mapsto> 2]"
  by (simp add: load_map_def no_faults_def select_loads_def scenario_defs List.map_filter_def)

lemma select_agents_scenario:
  "select_agents scenario_db = [agent_A, agent_B]"
  "select_agents idle_db = [agent_A, agent_B]"
  "select_agents far_db = [agent_C]"
  "select_agents tie_db = [agent_A\<lparr>a_id := 2\<rparr>, agent_A\<lparr>a_id := 1\<rparr>]"
  by (simp_all add: select_agents_def scenario_defs del: not_None_eq)

lemma candidates_scenario:
  assumes "dist 17.3850 78.4867 17.3860 78.4870 = Some dA"
    and "dist 17.3850 78.4867 17.4000 78.5100 = Some dB"
  shows "admin_candidates scenario_env no_faults scenario_db 1
         = [\<lparr>c_id = 1, c_d = Some dA, c_load = 2\<rparr>, \<lparr>c_id = 2, c_d = Some dB, c_load = 0\<rparr>]"
  using assms
  by (simp add: admin_candidates_def pickup_scenario default_statuses load_map_scenario
      candidates_of_def select_agents_scenario Number_def agent_A_def agent_B_def)

lemma scenario_assign:
  "\<exists>dA dB. dist 17.3850 78.4867 17.3860 78.4870 = Some dA \<and> dA \<le> 0.16
     \<and> dist 17.3850 78.4867 17.4000 78.5100 = Some dB \<and> 0.26 \<le> dB \<and> dB \<le> 4
     \<and> admin_assign scenario_env no_faults scenario_db 1
         = (update_order scenario_db 2 1, Json 200 (Agent_assigned 2 (Some (toFixed2 dB))))"
proof -
  obtain dA where dA: "dist 17.3850 78.4867 17.3860 78.4870 = Some dA" "0 \<le> dA" "dA \<le> 0.16"
    using dist_A by blast
  obtain dB where dB: "dist 17.3850 78.4867 17.4000 78.5100 = Some dB" "0.26 \<le> dB" "dB \<le> 4"
    using dist_B by blast
  have sel: "select_agents scenario_db \<noteq> []"
    by (simp add: select_agents_scenario)
  have pick: "pick_best 10 (admin_candidates scenario_env no_faults scenario_db 1)
        = Inr \<lparr>c_id = 2, c_d = Some dB, c_load = 0\<rparr>"
    using dA(3) dB(3)
    by (simp add: candidates_scenario [OF dA(1) dB(1)] pick_best_def within_radius_def
        cmp_load_d_def not_after_def)
  have "admin_assign scenario_env no_faults scenario_db 1
         = (update_order scenario_db 2 1, Json 200 (Agent_assigned 2 (Some (toFixed2 dB))))"
    by (simp add: admin_assign_loaded [OF _ _ _ pickup_scenario(1) sel] no_faults_def
        default_max_km pick assigned_def)
  with dA dB show ?thesis by blast
qed

lemma admin_candidates_mem:
  assumes "c \<in> set (admin_candidates e fails db orderId)"
  shows "\<exists>rlat rlng a. pickup_of db orderId = Some (rlat, rlng) \<and> a \<in> set (select_agents db)
           \<and> c_id c = a_id a
           \<and> c_d c = dist rlat rlng (Number (a_lat a)) (Number (a_lng a))
           \<and> c_load c = (case load_map fails db (assign_load_statuses e) (a_id a) of
                            None \<Rightarrow> 0 | Some n \<Rightarrow> n)"
proof -
  from assms obtain p' where p': "pickup_of db orderId = Some p'"
    by (cases "pickup_of db orderId") (simp_all add: admin_candidates_def)
  obtain rlat rlng where "p' = (rlat, rlng)"
    by (cases p')
  with p' have p: "pickup_of db orderId = Some (rlat, rlng)"
    by simp
  with assms have "c \<in> set (candidates_of rlat rlng (select_agents db)
                   (load_map fails db (assign_load_statuses e)))"
    by (simp add: admin_candidates_def)
  then obtain a where "a \<in> set (select_agents db)"
    and "c = \<lparr>c_id = a_id a, c_d = dist rlat rlng (Number (a_lat a)) (Number (a_lng a)),
              c_load = (case load_map fails db (assign_load_statuses e) (a_id a) of
                          None \<Rightarrow> 0 | Some n \<Rightarrow> n)\<rparr>"
    by (auto simp: candidates_of_def)
  with p show ?thesis
    by (intro exI [of _ rlat] exI [of _ rlng] exI [of _ a]) simp
qed

lemma put_candidates_mem:
  assumes "c \<in> set (put_candidates b)"
  shows "\<exists>ags a. b_agents b = Some ags \<and> a \<in> set ags
           \<and> c_id c = a_id a
           \<and> c_d c = dist_put (b_rlat b) (b_rlng b) (Number (a_lat a)) (Number (a_lng a))"
proof -
  from assms obtain ags where p: "b_agents b = Some ags"
    by (cases "b_agents b") (simp_all add: put_candidates_def)
  with assms have "c \<in> set (candidates_of_put (b_rlat b) (b_rlng b) ags (b_loadMap b))"
    by (simp add: put_candidates_def)
  then obtain a where "a \<in> set ags" and "c_id c = a_id a"
    and "c_d c = dist_put (b_rlat b) (b_rlng b) (Number (a_lat a)) (Number (a_lng a))"
    by (auto simp: candidates_of_put_def)
  with p show ?thesis
    by (intro exI [of _ ags] exI [of _ a]) simp
qed

lemma pick_best_mem:
  assumes "pick_best m cs = Inr best"
  shows "best \<in> set cs" "within_radius m best"
proof -
  from pick_best_Inr [OF assms] obtain pre post
    where "filter (within_radius m) cs = pre @ best # post" by blast
  then have "best \<in> set (filter (within_radius m) cs)" by simp
  then show "best \<in> set cs" "within_radius m best" by simp_all
qed

text \<open>
  Claim C4.  When an assignment route answers 200 with an agent, that agent is one of
  the agents the route considered, its computed distance to the pickup coordinate is a
  number not above the radius, and the reported distance is that number rounded to two
  decimals.  The ranking never sees a candidate beyond the radius: \<open>pick_best\<close> gives
  the same result on the filtered list, and its choice satisfies the radius test.
\<close>

theorem assigned_agent_within_radius:
  "(admin_assign e fails db orderId = (db', Json 200 (Agent_assigned aid dk)) \<longrightarrow>
      (\<exists>rlat rlng a x. pickup_of db orderId = Some (rlat, rlng) \<and> a \<in> set (select_agents db)
          \<and> a_id a = aid
          \<and> dist rlat rlng (Number (a_lat a)) (Number (a_lng a)) = Some x
          \<and> x \<le> assign_max_km e \<and> dk = Some (toFixed2 x)))
   \<and> (put_assign fails db orderId b = (db', Json 200 (Agent_assigned aid dk)) \<longrightarrow>
      (\<exists>ags a x. b_agents b = Some ags \<and> a \<in> set ags \<and> a_id a = aid
          \<and> dist_put (b_rlat b) (b_rlng b) (Number (a_lat a)) (Number (a_lng a)) = Some x
          \<and> x \<le> put_max_km b \<and> dk = Some (toFixed2 x)))
   \<and> pick_best m (filter (within_radius m) cs) = pick_best m cs
   \<and> (pick_best m cs = Inr best \<longrightarrow> best \<in> set cs \<and> within_radius m best)"
proof (intro conjI impI)
  assume "admin_assign e fails db orderId = (db', Json 200 (Agent_assigned aid dk))"
  from admin_assign_Assigned [OF this] obtain best
    where b: "pick_best (assign_max_km e) (admin_candidates e fails db orderId) = Inr best"
      "aid = c_id best" "dk = map_option toFixed2 (c_d best)"
    by blast
  from pick_best_mem [OF b(1)] within_radius_Some [of "assign_max_km e" best]
  obtain x where x: "best \<in> set (admin_candidates e fails db orderId)"
    "c_d best = Some x" "x \<le> assign_max_km e"
    by blast
  from admin_candidates_mem [OF x(1)] obtain rlat rlng a
    where "pickup_of db orderId = Some (rlat, rlng)" "a \<in> set (select_agents db)"
      "c_id best = a_id a" "c_d best = dist rlat rlng (Number (a_lat a)) (Number (a_lng a))"
    by blast
  with b x show "\<exists>rlat rlng a x. pickup_of db orderId = Some (rlat, rlng)
          \<and> a \<in> set (select_agents db) \<and> a_id a = aid
          \<and> dist rlat rlng (Number (a_lat a)) (Number (a_lng a)) = Some x
          \<and> x \<le> assign_max_km e \<and> dk = Some (toFixed2 x)"
    by (intro exI [of _ rlat] exI [of _ rlng] exI [of _ a] exI [of _ x]) simp
next
  assume "put_assign fails db orderId b = (db', Json 200 (Agent_assigned aid dk))"
  from put_assign_Assigned [OF this] obtain best
    where b: "pick_best (put_max_km b) (put_candidates b) = Inr best"
      "aid = c_id best" "dk = map_option toFixed2 (c_d best)"
    by blast
  from pick_best_mem [OF b(1)] within_radius_Some [of "put_max_km b" best]
  obtain x where x: "best \<in> set (put_candidates b)" "c_d best = Some x" "x \<le> put_max_km b"
    by blast
  from put_candidates_mem [OF x(1)] obtain ags a
    where "b_agents b = Some ags" "a \<in> set ags" "c_id best = a_id a"
      "c_d best = dist_put (b_rlat b) (b_rlng b) (Number (a_lat a)) (Number (a_lng a))"
    by blast
  with b x show "\<exists>ags a x. b_agents b = Some ags \<and> a \<in> set ags \<and> a_id a = aid
          \<and> dist_put (b_rlat b) (b_rlng b) (Number (a_lat a)) (Number (a_lng a)) = Some x
          \<and> x \<le> put_max_km b \<and> dk = Some (toFixed2 x)"
    by (intro exI [of _ ags] exI [of _ a] exI [of _ x]) simp
next
  show "pick_best m (filter (within_radius m) cs) = pick_best m cs"
    by (rule pick_best_filter)
next
  assume "pick_best m cs = Inr best"
  then show "best \<in> set cs" "within_radius m best"
    by (rule pick_best_mem)+
qed

text \<open>
  The scenario: agent B is assigned, at a distance not above 10 km.
\<close>

theorem assigned_agent_within_radius_witness:
  "\<exists>db' dk. admin_assign scenario_env no_faults scenario_db 1
              = (db', Json 200 (Agent_assigned 2 dk))
     \<and> (\<exists>rlat rlng a x. pickup_of scenario_db 1 = Some (rlat, rlng)
          \<and> a \<in> set (select_agents scenario_db) \<and> a_id a = 2
          \<and> dist rlat rlng (Number (a_lat a)) (Number (a_lng a)) = Some x
          \<and> x \<le> 10 \<and> dk = Some (toFixed2 x))"
proof -
  from scenario_assign obtain dB
    where eq: "admin_assign scenario_env no_faults scenario_db 1
         = (update_order scenario_db 2 1, Json 200 (Agent_assigned 2 (Some (toFixed2 dB))))"
    by blast
  from assigned_agent_within_radius [THEN conjunct1, rule_format, OF eq] eq
  show ?thesis
    unfolding default_max_km by blast
qed

lemma pick_best_least:
  assumes "pick_best m cs = Inr best" "c \<in> set cs" "within_radius m c"
  shows "c_load best \<le> c_load c
         \<and> (c_load best = c_load c \<longrightarrow> (\<exists>x y. c_d best = Some x \<and> c_d c = Some y \<and> x \<le> y))"
proof -
  from pick_best_Inr [OF assms(1)] obtain pre post
    where pp: "filter (within_radius m) cs = pre @ best # post"
      "\<forall>c \<in> set pre. ranks_before best c" "\<forall>c \<in> set post. \<not> ranks_before c best"
    by blast
  from assms(2,3) have "c \<in> set (filter (within_radius m) cs)" by simp
  then have "c \<in> set pre \<or> c = best \<or> c \<in> set post"
    unfolding pp(1) by auto
  with pp(2,3) have r: "ranks_before best c \<or> c = best \<or> \<not> ranks_before c best"
    by blast
  obtain x y where xy: "c_d best = Some x" "c_d c = Some y"
    using within_radius_Some [OF pick_best_mem(2) [OF assms(1)]] within_radius_Some [OF assms(3)]
    by blast
  from r show ?thesis
    using xy by (auto simp: ranks_before_def)
qed

text \<open>
  Claim C5.  When a candidate lies within the radius, \<open>pick_best\<close> selects one, and the
  selected candidate has the least workload of the candidates within the radius and,
  among those of the same workload, the least distance.  The agent of a 200 response of
  either route is such a candidate.
\<close>

theorem least_loaded_then_nearest:
  "(pick_best m cs = Inr best \<and> c \<in> set cs \<and> within_radius m c \<longrightarrow>
      c_load best \<le> c_load c
      \<and> (c_load best = c_load c \<longrightarrow> (\<exists>x y. c_d best = Some x \<and> c_d c = Some y \<and> x \<le> y)))
   \<and> (c \<in> set cs \<and> within_radius m c \<longrightarrow> (\<exists>b. pick_best m cs = Inr b))
   \<and> (admin_assign e fails db orderId = (db', Json 200 (Agent_assigned aid dk))
        \<and> ca \<in> set (admin_candidates e fails db orderId) \<and> within_radius (assign_max_km e) ca
      \<longrightarrow> (\<exists>b \<in> set (admin_candidates e fails db orderId). c_id b = aid
             \<and> c_load b \<le> c_load ca
             \<and> (c_load b = c_load ca \<longrightarrow>
                  (\<exists>x y. c_d b = Some x \<and> c_d ca = Some y \<and> x \<le> y))))
   \<and> (put_assign fails db orderId bd = (db', Json 200 (Agent_assigned aid dk))
        \<and> cp \<in> set (put_candidates bd) \<and> within_radius (put_max_km bd) cp
      \<longrightarrow> (\<exists>b \<in> set (put_candidates bd). c_id b = aid
             \<and> c_load b \<le> c_load cp
             \<and> (c_load b = c_load cp \<longrightarrow>
                  (\<exists>x y. c_d b = Some x \<and> c_d cp = Some y \<and> x \<le> y))))"
proof (intro conjI impI)
  assume "pick_best m cs = Inr best \<and> c \<in> set cs \<and> within_radius m c"
  then show "c_load best \<le> c_load c"
    "c_load best = c_load c \<Longrightarrow> \<exists>x y. c_d best = Some x \<and> c_d c = Some y \<and> x \<le> y"
    using pick_best_least [of m cs best c] by simp_all
next
  assume "c \<in> set cs \<and> within_radius m c"
  then show "\<exists>b. pick_best m cs = Inr b"
    using pick_best_nonempty [of c cs m] by simp
next
  assume h: "admin_assign e fails db orderId = (db', Json 200 (Agent_assigned aid dk))
        \<and> ca \<in> set (admin_candidates e fails db orderId) \<and> within_radius (assign_max_km e) ca"
  from admin_assign_Assigned [of e fails db orderId db' aid dk] h obtain b
    where b: "pick_best (assign_max_km e) (admin_candidates e fails db orderId) = Inr b"
      "aid = c_id b"
    by blast
  from pick_best_least [OF b(1)] h pick_best_mem(1) [OF b(1)] b(2)
  show "\<exists>b \<in> set (admin_candidates e fails db orderId). c_id b = aid
             \<and> c_load b \<le> c_load ca
             \<and> (c_load b = c_load ca \<longrightarrow>
                  (\<exists>x y. c_d b = Some x \<and> c_d ca = Some y \<and> x \<le> y))"
    by (intro bexI [of _ b]) simp_all
next
  assume h: "put_assign fails db orderId bd = (db', Json 200 (Agent_assigned aid dk))
        \<and> cp \<in> set (put_candidates bd) \<and> within_radius (put_max_km bd) cp"
  from put_assign_Assigned [of fails db orderId bd db' aid dk] h obtain b
    where b: "pick_best (put_max_km bd) (put_candidates bd) = Inr b" "aid = c_id b"
    by blast
  from pick_best_least [OF b(1)] h pick_best_mem(1) [OF b(1)] b(2)
  show "\<exists>b \<in> set (put_candidates bd). c_id b = aid
             \<and> c_load b \<le> c_load cp
             \<and> (c_load b = c_load cp \<longrightarrow>
                  (\<exists>x y. c_d b = Some x \<and> c_d cp = Some y \<and> x \<le> y))"
    by (intro bexI [of _ b]) simp_all
qed

text \<open>
  The scenario of the specification: agent A with workload 2 at no more than 0.16 km,
  agent B with workload 0 between 0.26 km and 4 km; B is assigned although A is nearer.
\<close>

theorem least_loaded_then_nearest_witness:
  "\<exists>dA dB. dist 17.3850 78.4867 17.3860 78.4870 = Some dA \<and> dA \<le> 0.16
     \<and> dist 17.3850 78.4867 17.4000 78.5100 = Some dB \<and> 0.26 \<le> dB \<and> dB \<le> 4
     \<and> admin_candidates scenario_env no_faults scenario_db 1
         = [\<lparr>c_id = 1, c_d = Some dA, c_load = 2\<rparr>, \<lparr>c_id = 2, c_d = Some dB, c_load = 0\<rparr>]
     \<and> admin_assign scenario_env no_faults scenario_db 1
         = (update_order scenario_db 2 1, Json 200 (Agent_assigned 2 (Some (toFixed2 dB))))
     \<and> (\<exists>b \<in> set (admin_candidates scenario_env no_faults scenario_db 1).
           c_id b = 2 \<and> c_load b \<le> 2)"
proof -
  from scenario_assign obtain dA dB
    where d: "dist 17.3850 78.4867 17.3860 78.4870 = Some dA" "dA \<le> 0.16"
      "dist 17.3850 78.4867 17.4000 78.5100 = Some dB" "0.26 \<le> dB" "dB \<le> 4"
      and eq: "admin_assign scenario_env no_faults scenario_db 1
         = (update_order scenario_db 2 1, Json 200 (Agent_assigned 2 (Some (toFixed2 dB))))"
    by blast
  note cs = candidates_scenario [OF d(1) d(3)]
  have a: "\<lparr>c_id = 1, c_d = Some dA, c_load = 2\<rparr>
             \<in> set (admin_candidates scenario_env no_faults scenario_db 1)"
    "within_radius (assign_max_km scenario_env) \<lparr>c_id = 1, c_d = Some dA, c_load = 2\<rparr>"
    using d(2) by (simp_all add: cs default_max_km within_radius_def)
  from least_loaded_then_nearest [THEN conjunct2, THEN conjunct2, THEN conjunct1, rule_format,
      OF conjI [OF eq conjI [OF a]]]
  have "\<exists>b \<in> set (admin_candidates scenario_env no_faults scenario_db 1).
           c_id b = 2 \<and> c_load b \<le> 2"
    by auto
  with d eq cs show ?thesis by blast
qed

text \<open>
  Claim C6.  When the route has its candidates and none of them lies within the radius,
  the answer is 400 with the body naming the radius, and the store is unchanged: the
  order keeps its status and has no agent set by this request.
\<close>

theorem none_within_radius_leaves_order:
  "(\<not> fails Select_order \<and> \<not> fails Select_restaurant \<and> \<not> fails Select_agents
      \<and> pickup_of db orderId \<noteq> None \<and> select_agents db \<noteq> []
      \<and> (\<forall>c \<in> set (admin_candidates e fails db orderId). \<not> within_radius (assign_max_km e) c)
      \<longrightarrow> admin_assign e fails db orderId
            = (db, Json 400 (No_agents_within (assign_max_km e))))
   \<and> (b_agents b \<noteq> None \<and> b_rlat b \<noteq> 0 \<and> b_rlng b \<noteq> 0
      \<and> (\<forall>c \<in> set (put_candidates b). \<not> within_radius (put_max_km b) c)
      \<longrightarrow> put_assign fails db orderId b = (db, Json 400 (No_agents_within (put_max_km b))))"
proof (intro conjI impI)
  assume h: "\<not> fails Select_order \<and> \<not> fails Select_restaurant \<and> \<not> fails Select_agents
      \<and> pickup_of db orderId \<noteq> None \<and> select_agents db \<noteq> []
      \<and> (\<forall>c \<in> set (admin_candidates e fails db orderId). \<not> within_radius (assign_max_km e) c)"
  then obtain rlat rlng where p: "pickup_of db orderId = Some (rlat, rlng)"
    by auto
  from h have "filter (within_radius (assign_max_km e)) (admin_candidates e fails db orderId) = []"
    by (simp add: filter_empty_conv)
  then have "pick_best (assign_max_km e) (admin_candidates e fails db orderId)
             = Inl (Json 400 (No_agents_within (assign_max_km e)))"
    by (simp add: pick_best_Inl)
  with h show "admin_assign e fails db orderId
            = (db, Json 400 (No_agents_within (assign_max_km e)))"
    by (simp add: admin_assign_loaded [OF _ _ _ p])
next
  assume h: "b_agents b \<noteq> None \<and> b_rlat b \<noteq> 0 \<and> b_rlng b \<noteq> 0
      \<and> (\<forall>c \<in> set (put_candidates b). \<not> within_radius (put_max_km b) c)"
  then obtain ags where p: "b_agents b = Some ags"
    by auto
  from h have "filter (within_radius (put_max_km b)) (put_candidates b) = []"
    by (simp add: filter_empty_conv)
  then have "pick_best (put_max_km b) (put_candidates b)
             = Inl (Json 400 (No_agents_within (put_max_km b)))"
    by (simp add: pick_best_Inl)
  with h show "put_assign fails db orderId b = (db, Json 400 (No_agents_within (put_max_km b)))"
    by (simp add: put_assign_loaded [OF p])
qed

lemma candidates_far:
  assumes "dist 17.3850 78.4867 20.0 80.0 = Some dC"
  shows "admin_candidates scenario_env no_faults far_db 1
         = [\<lparr>c_id = 3, c_d = Some dC, c_load = 0\<rparr>]"
  using assms
  by (simp add: admin_candidates_def pickup_scenario default_statuses load_map_def no_faults_def
      select_loads_def List.map_filter_def candidates_of_def select_agents_scenario Number_def
      agent_C_def)
    (simp add: far_db_def new_order_def)

text \<open>
  The scenario: the only agent C is more than 46 km from the restaurant, the radius is 10.
\<close>

theorem none_within_radius_leaves_order_witness:
  "\<exists>dC. dist 17.3850 78.4867 20.0 80.0 = Some dC \<and> 46 \<le> dC
      \<and> admin_candidates scenario_env no_faults far_db 1 = [\<lparr>c_id = 3, c_d = Some dC, c_load = 0\<rparr>]
      \<and> admin_assign scenario_env no_faults far_db 1 = (far_db, Json 400 (No_agents_within 10))"
proof -
  from dist_C obtain dC where d: "dist 17.3850 78.4867 20.0 80.0 = Some dC" "46 \<le> dC"
    by blast
  note cs = candidates_far [OF d(1)]
  have "\<not> no_faults Select_order \<and> \<not> no_faults Select_restaurant \<and> \<not> no_faults Select_agents
      \<and> pickup_of far_db 1 \<noteq> None \<and> select_agents far_db \<noteq> []
      \<and> (\<forall>c \<in> set (admin_candidates scenario_env no_faults far_db 1).
            \<not> within_radius (assign_max_km scenario_env) c)"
    using d(2)
    by (simp add: no_faults_def pickup_scenario select_agents_scenario cs default_max_km
        within_radius_def)
  from none_within_radius_leaves_order [THEN conjunct1, rule_format, OF this]
  have "admin_assign scenario_env no_faults far_db 1 = (far_db, Json 400 (No_agents_within 10))"
    by (simp add: default_max_km)
  with d cs show ?thesis by blast
qed

section \<open>Properties of the location store\<close>

lemma post_location_store:
  "fst (post_location ns now store req) =
     (if accepted req
      then (case ToString ns (rq_agent_id req) of
              None \<Rightarrow> store
            | Some k \<Rightarrow> assign_property k (stored now req) store)
      else store)"
  by (simp add: post_location_def accepted_def stored_def split: option.splits)

lemma props_assign_property:
  "props (assign_property k v store) =
     (if k = ''__proto__'' then props store else AList.update k v (props store))"
  by (simp add: assign_property_def)

lemma set_update_subset: "set (AList.update k v al) \<subseteq> insert (k, v) (set al)"
  by (induction al) auto

lemma props_post_location_subset:
  "set (props (fst (post_location ns now store req))) \<subseteq>
     set (props store) \<union> {(k, stored now req) | k. accepted req}"
  using set_update_subset [of _ "stored now req" "props store"]
  by (auto simp: post_location_store props_assign_property split: option.splits if_splits)

lemma report_all_Nil: "report_all ns store [] = store"
  by (simp add: report_all_def)

lemma report_all_Cons:
  "report_all ns store ((now, req) # reqs) =
     report_all ns (fst (post_location ns now store req)) reqs"
  by (simp add: report_all_def)

lemma report_all_append:
  "report_all ns store (xs @ ys) = report_all ns (report_all ns store xs) ys"
  by (simp add: report_all_def)

lemma report_all_distinct:
  "distinct (map fst (props store)) \<Longrightarrow> distinct (map fst (props (report_all ns store reqs)))"
proof (induction reqs arbitrary: store)
  case Nil
  then show ?case by (simp add: report_all_Nil)
next
  case (Cons x reqs)
  obtain now req where x: "x = (now, req)" by (cases x)
  have "distinct (map fst (props (fst (post_location ns now store req))))"
    using Cons.prems
    by (simp add: post_location_store props_assign_property distinct_update split: option.splits)
  then show ?case
    unfolding x report_all_Cons by (rule Cons.IH)
qed

lemma report_all_other:
  assumes "\<forall>(t, q) \<in> set reqs. accepted q \<longrightarrow> ToString ns (rq_agent_id q) \<noteq> Some k"
  shows "map_of (props (report_all ns store reqs)) k = map_of (props store) k"
  using assms
proof (induction reqs arbitrary: store)
  case Nil
  then show ?case by (simp add: report_all_Nil)
next
  case (Cons x reqs)
  obtain now req where x: "x = (now, req)" by (cases x)
  have "map_of (props (report_all ns (fst (post_location ns now store req)) reqs)) k
        = map_of (props (fst (post_location ns now store req))) k"
    using Cons.prems by (intro Cons.IH) simp
  also have "\<dots> = map_of (props store) k"
    using Cons.prems
    by (auto simp: x post_location_store props_assign_property update_conv' split: option.splits)
  finally show ?case
    by (simp add: x report_all_Cons)
qed

lemma report_all_last:
  assumes "reqs = pre @ (now, req) # post" and "accepted req"
    and "ToString ns (rq_agent_id req) = Some k" and "k \<noteq> ''__proto__''"
    and "\<forall>(t, q) \<in> set post. accepted q \<longrightarrow> ToString ns (rq_agent_id q) \<noteq> Some k"
  shows "map_of (props (report_all ns store reqs)) k = Some (stored now req)"
proof -
  let ?s1 = "report_all ns store pre"
  have "report_all ns store reqs
        = report_all ns (fst (post_location ns now ?s1 req)) post"
    by (simp add: assms(1) report_all_append report_all_Cons)
  then have "map_of (props (report_all ns store reqs)) k
             = map_of (props (fst (post_location ns now ?s1 req))) k"
    using report_all_other [OF assms(5)] by simp
  also have "\<dots> = Some (stored now req)"
    using assms(2,3,4) by (simp add: post_location_store props_assign_property update_conv')
  finally show ?thesis .
qed

lemma report_all_no_proto_key:
  assumes "''__proto__'' \<notin> fst ` set (props store)"
  shows "''__proto__'' \<notin> fst ` set (props (report_all ns store reqs))"
  using assms
proof (induction reqs arbitrary: store)
  case Nil
  then show ?case by (simp add: report_all_Nil)
next
  case (Cons x reqs)
  obtain now req where x: "x = (now, req)" by (cases x)
  have "''__proto__'' \<notin> fst ` set (props (fst (post_location ns now store req)))"
    using Cons.prems
    by (auto simp: post_location_store props_assign_property dom_update [symmetric]
        simp del: dom_update split: option.splits if_splits
        dest!: set_mp [OF set_update_subset])
  then show ?case
    unfolding x report_all_Cons by (rule Cons.IH)
qed

lemma mset_entries: "mset (entries store) = mset (props store)"
  by (simp add: entries_def)

lemma set_entries: "set (entries store) = set (props store)"
  by (auto simp: entries_def)

lemma distinct_entries:
  "distinct (map fst (entries store)) = distinct (map fst (props store))"
proof -
  have "mset (map fst (entries store)) = mset (map fst (props store))"
    by (simp add: mset_entries)
  then show ?thesis
    by (rule mset_eq_imp_distinct_iff)
qed

lemma get_active_ids: "map ar_agent_id (get_active store) = map fst (entries store)"
  by (simp add: get_active_def case_prod_beta comp_def)

lemma set_get_active: "set (get_active store) = (\<lambda>(k, v). row_of k v) ` set (props store)"
  by (simp add: get_active_def set_entries row_of_def)

lemma filter_key_single:
  "distinct (map f xs) \<Longrightarrow> x \<in> set xs \<Longrightarrow> [r \<leftarrow> xs. f r = f x] = [x]"
proof (induction xs)
  case Nil
  then show ?case by simp
next
  case (Cons y ys)
  show ?case
  proof (cases "y = x")
    case True
    have "[r \<leftarrow> ys. f r = f x] = []"
      using Cons.prems(1) True by (force simp: filter_empty_conv image_iff)
    with True show ?thesis by simp
  next
    case False
    with Cons.prems have "x \<in> set ys" by simp
    moreover have "f y \<noteq> f x"
      using Cons.prems(1) \<open>x \<in> set ys\<close> by auto
    ultimately show ?thesis
      using Cons by simp
  qed
qed

text \<open>
  For every agent id whose key is not \<^verbatim>\<open>__proto__\<close> the store is as the declaration's
  comment \<^verbatim>\<open>{ agentId: { lat, lng, updatedAt } }\<close> says.  After any sequence of requests
  to the handler, starting from the empty store, no two properties and no two rows of
  the snapshot have the same key; and for an accepted request that is followed by no
  accepted request with the same key, the store holds exactly its coordinates with its
  arrival time and the snapshot has exactly that one row for the key.
\<close>

lemma last_write_wins:
  "distinct (map fst (props (report_all num_str empty_store reqs)))
   \<and> distinct (map ar_agent_id (get_active (report_all num_str empty_store reqs)))
   \<and> (\<forall>pre now req post k.
          reqs = pre @ (now, req) # post \<and> accepted req
          \<and> ToString num_str (rq_agent_id req) = Some k \<and> k \<noteq> ''__proto__''
          \<and> (\<forall>(t, q) \<in> set post. accepted q \<longrightarrow> ToString num_str (rq_agent_id q) \<noteq> Some k)
          \<longrightarrow> map_of (props (report_all num_str empty_store reqs)) k = Some (stored now req)
              \<and> [r \<leftarrow> get_active (report_all num_str empty_store reqs). ar_agent_id r = k]
                 = [row_of k (stored now req)])"
proof -
  let ?s = "report_all num_str empty_store reqs"
  have d: "distinct (map fst (props ?s))"
    by (rule report_all_distinct) (simp add: empty_store_def)
  have d': "distinct (map ar_agent_id (get_active ?s))"
    using d by (simp add: get_active_ids distinct_entries)
  have "map_of (props ?s) k = Some (stored now req)
        \<and> [r \<leftarrow> get_active ?s. ar_agent_id r = k] = [row_of k (stored now req)]"
    if h: "reqs = pre @ (now, req) # post" "accepted req"
      "ToString num_str (rq_agent_id req) = Some k" "k \<noteq> ''__proto__''"
      "\<forall>(t, q) \<in> set post. accepted q \<longrightarrow> ToString num_str (rq_agent_id q) \<noteq> Some k"
    for pre now req post k
  proof -
    have m: "map_of (props ?s) k = Some (stored now req)"
      using h by (rule report_all_last)
    then have "(k, stored now req) \<in> set (props ?s)"
      by (rule map_of_SomeD)
    then have i: "row_of k (stored now req) \<in> set (get_active ?s)"
      by (force simp: set_get_active)
    have "ar_agent_id (row_of k (stored now req)) = k"
      by (simp add: row_of_def)
    with filter_key_single [OF d' i]
    have "[r \<leftarrow> get_active ?s. ar_agent_id r = k] = [row_of k (stored now req)]"
      by simp
    with m show ?thesis by simp
  qed
  with d d' show ?thesis by blast
qed

text \<open>
  Claim C8.  The store is meant to hold, for each agent id, the most recently arrived
  report, and a snapshot after two reports for the same agent to show the second.  The
  code misses the agent id \<^verbatim>\<open>__proto__\<close>: the two reports below are accepted, answered
  200 and broadcast, but the assignment sets the prototype of \<^verbatim>\<open>deliveryAgents\<close>
  and creates no property, so the snapshot shows neither of them, alone or among the
  reports of other agents (the number 7 and the string agent-8), which are listed.
\<close>

theorem proto_report_not_stored:
  "accepted \<lparr>rq_agent_id = JStr ''__proto__'', rq_lat = JNum 17.3850, rq_lng = JNum 78.4867\<rparr>
   \<and> accepted \<lparr>rq_agent_id = JStr ''__proto__'', rq_lat = JNum 17.4, rq_lng = JNum 78.51\<rparr>
   \<and> post_location integral_text 1000 empty_store
        \<lparr>rq_agent_id = JStr ''__proto__'', rq_lat = JNum 17.3850, rq_lng = JNum 78.4867\<rparr>
      = (\<lparr>props = [],
           proto = Some \<lparr>l_lat = JNum 17.3850, l_lng = JNum 78.4867, l_updatedAt = 1000\<rparr>\<rparr>,
         [AgentLocation (JStr ''__proto__'') (JNum 17.3850) (JNum 78.4867)],
         Json 200 Success)
   \<and> get_active (report_all integral_text empty_store
        [(1000, \<lparr>rq_agent_id = JStr ''__proto__'', rq_lat = JNum 17.3850, rq_lng = JNum 78.4867\<rparr>),
         (2000, \<lparr>rq_agent_id = JStr ''__proto__'', rq_lat = JNum 17.4, rq_lng = JNum 78.51\<rparr>)])
      = []
   \<and> get_active (report_all integral_text empty_store
        [(500, \<lparr>rq_agent_id = JNum 7, rq_lat = JNum 17.3860, rq_lng = JNum 78.4870\<rparr>),
         (1000, \<lparr>rq_agent_id = JStr ''__proto__'', rq_lat = JNum 17.3850, rq_lng = JNum 78.4867\<rparr>),
         (2000, \<lparr>rq_agent_id = JStr ''__proto__'', rq_lat = JNum 17.4, rq_lng = JNum 78.51\<rparr>),
         (3000, \<lparr>rq_agent_id = JStr ''agent-8'', rq_lat = JNum 20, rq_lng = JNum 80\<rparr>)])
      = [\<lparr>ar_agent_id = ''7'', ar_lat = JNum 17.3860, ar_lng = JNum 78.4870, ar_updatedAt = 500\<rparr>,
         \<lparr>ar_agent_id = ''agent-8'', ar_lat = JNum 20, ar_lng = JNum 80, ar_updatedAt = 3000\<rparr>]"
  by (simp add: accepted_def report_all_def post_location_def assign_property_def empty_store_def
      integral_text_def get_active_def entries_def is_array_index_def is_digit_def index_val_def)

theorem proto_report_not_stored_witness:
  "accepted \<lparr>rq_agent_id = JStr ''__proto__'', rq_lat = JNum 17.4, rq_lng = JNum 78.51\<rparr>
   \<and> get_active (report_all integral_text empty_store
        [(1000, \<lparr>rq_agent_id = JStr ''__proto__'', rq_lat = JNum 17.3850, rq_lng = JNum 78.4867\<rparr>),
         (2000, \<lparr>rq_agent_id = JStr ''__proto__'', rq_lat = JNum 17.4, rq_lng = JNum 78.51\<rparr>)])
      = []"
  using proto_report_not_stored by simp

text \<open>
  Claim C9.  A request whose \<^verbatim>\<open>lat\<close> or \<^verbatim>\<open>lng\<close> is the number 0 is answered with 400
  \<^verbatim>\<open>Missing agent_id, lat or lng\<close> and leaves the store as it is; no property the handler
  adds and no prototype it sets has the latitude or the longitude 0, and no row of the
  snapshot after any sequence of requests has.
\<close>

theorem zero_coordinate_rejected:
  "(rq_lat req = JNum 0 \<or> rq_lng req = JNum 0 \<longrightarrow>
      post_location num_str now store req
        = (store, [], Json 400 (Error_msg ''Missing agent_id, lat or lng'')))
   \<and> (\<forall>k v. (k, v) \<in> set (props (fst (post_location num_str now store req)))
              \<and> (k, v) \<notin> set (props store)
          \<longrightarrow> l_lat v \<noteq> JNum 0 \<and> l_lng v \<noteq> JNum 0)
   \<and> (\<forall>v. proto (fst (post_location num_str now store req)) = Some v \<and> proto store \<noteq> Some v
          \<longrightarrow> l_lat v \<noteq> JNum 0 \<and> l_lng v \<noteq> JNum 0)
   \<and> (\<forall>r \<in> set (get_active (report_all num_str empty_store reqs)).
          ar_lat r \<noteq> JNum 0 \<and> ar_lng r \<noteq> JNum 0)"
proof (intro conjI allI impI ballI)
  assume "rq_lat req = JNum 0 \<or> rq_lng req = JNum 0"
  then show "post_location num_str now store req
        = (store, [], Json 400 (Error_msg ''Missing agent_id, lat or lng''))"
    by (auto simp: post_location_def)
next
  fix k v
  assume h: "(k, v) \<in> set (props (fst (post_location num_str now store req)))
              \<and> (k, v) \<notin> set (props store)"
  with props_post_location_subset [of num_str now store req]
  have "v = stored now req \<and> accepted req" by auto
  then show "l_lat v \<noteq> JNum 0" "l_lng v \<noteq> JNum 0"
    by (auto simp: accepted_def stored_def)
next
  fix v
  assume "proto (fst (post_location num_str now store req)) = Some v \<and> proto store \<noteq> Some v"
  then have "v = stored now req \<and> accepted req"
    by (auto simp: post_location_store assign_property_def split: option.splits if_splits)
  then show "l_lat v \<noteq> JNum 0" "l_lng v \<noteq> JNum 0"
    by (auto simp: accepted_def stored_def)
next
  fix r
  assume r: "r \<in> set (get_active (report_all num_str empty_store reqs))"
  have inv: "\<forall>(k, v) \<in> set (props (report_all num_str store' reqs)).
               l_lat v \<noteq> JNum 0 \<and> l_lng v \<noteq> JNum 0"
    if "\<forall>(k, v) \<in> set (props store'). l_lat v \<noteq> JNum 0 \<and> l_lng v \<noteq> JNum 0" for store'
    using that
  proof (induction reqs arbitrary: store')
    case Nil
    then show ?case by (simp add: report_all_Nil)
  next
    case (Cons x reqs)
    obtain t q where x: "x = (t, q)" by (cases x)
    have "\<forall>(k, v) \<in> set (props (fst (post_location num_str t store' q))).
            l_lat v \<noteq> JNum 0 \<and> l_lng v \<noteq> JNum 0"
      using Cons.prems props_post_location_subset [of num_str t store' q]
      by (auto simp: accepted_def stored_def)
    then show ?case
      unfolding x report_all_Cons by (rule Cons.IH)
  qed
  from inv [of empty_store] r show "ar_lat r \<noteq> JNum 0" "ar_lng r \<noteq> JNum 0"
    by (auto simp: set_get_active row_of_def empty_store_def)
qed

theorem zero_coordinate_rejected_witness:
  "rq_lat \<lparr>rq_agent_id = JNum 7, rq_lat = JNum 0, rq_lng = JNum 78.4867\<rparr> = JNum 0
   \<and> post_location integral_text 1000 empty_store
        \<lparr>rq_agent_id = JNum 7, rq_lat = JNum 0, rq_lng = JNum 78.4867\<rparr>
       = (empty_store, [], Json 400 (Error_msg ''Missing agent_id, lat or lng''))"
  using zero_coordinate_rejected
    [of "\<lparr>rq_agent_id = JNum 7, rq_lat = JNum 0, rq_lng = JNum 78.4867\<rparr>" integral_text 1000
        empty_store "[]"]
  by simp




section \<open>Ties in the ranking\<close>

lemma candidates_tie:
  "admin_candidates scenario_env no_faults tie_db 1
     = [\<lparr>c_id = 2, c_d = dist 17.3850 78.4867 17.3860 78.4870, c_load = 0\<rparr>,
        \<lparr>c_id = 1, c_d = dist 17.3850 78.4867 17.3860 78.4870, c_load = 0\<rparr>]"
  by (simp add: admin_candidates_def pickup_scenario default_statuses load_map_def no_faults_def
      select_loads_def List.map_filter_def candidates_of_def select_agents_scenario Number_def
      agent_A_def)
    (simp add: tie_db_def new_order_def)

lemma tie_assign:
  "\<exists>dA. dist 17.3850 78.4867 17.3860 78.4870 = Some dA
     \<and> admin_assign scenario_env no_faults tie_db 1
         = (update_order tie_db 2 1, Json 200 (Agent_assigned 2 (Some (toFixed2 dA))))"
proof -
  obtain dA where dA: "dist 17.3850 78.4867 17.3860 78.4870 = Some dA" "0 \<le> dA" "dA \<le> 0.16"
    using dist_A by blast
  have sel: "select_agents tie_db \<noteq> []"
    by (simp add: select_agents_scenario)
  have pick: "pick_best 10 (admin_candidates scenario_env no_faults tie_db 1)
        = Inr \<lparr>c_id = 2, c_d = Some dA, c_load = 0\<rparr>"
    using dA(1) dA(3)
    by (simp add: candidates_tie pick_best_def within_radius_def
        cmp_load_d_def not_after_def)
  have "admin_assign scenario_env no_faults tie_db 1
         = (update_order tie_db 2 1, Json 200 (Agent_assigned 2 (Some (toFixed2 dA))))"
    by (simp add: admin_assign_loaded [OF _ _ _ pickup_scenario(4) sel] no_faults_def
        default_max_km pick assigned_def)
  with dA show ?thesis by blast
qed

lemma dist_put_eq: "dist_put aLat aLng bLat bLng = dist aLat aLng bLat bLng"
  by (simp add: dist_put_def dist_def power2_eq_square mult.assoc)

lemma put_candidates_tie:
  "put_candidates tie_body
     = [\<lparr>c_id = 2, c_d = dist_put 17.3850 78.4867 17.3860 78.4870, c_load = 0\<rparr>,
        \<lparr>c_id = 1, c_d = dist_put 17.3850 78.4867 17.3860 78.4870, c_load = 0\<rparr>]"
  by (simp add: put_candidates_def candidates_of_put_def tie_body_def Number_def agent_A_def)

lemma tie_put_assign:
  "\<exists>dA. dist_put 17.3850 78.4867 17.3860 78.4870 = Some dA
     \<and> put_assign no_faults tie_db 1 tie_body
         = (update_order tie_db 2 1, Json 200 (Agent_assigned 2 (Some (toFixed2 dA))))"
proof -
  obtain dA where dA: "dist 17.3850 78.4867 17.3860 78.4870 = Some dA" "0 \<le> dA" "dA \<le> 0.16"
    using dist_A by blast
  have dP: "dist_put 17.3850 78.4867 17.3860 78.4870 = Some dA"
    using dA(1) by (simp only: dist_put_eq)
  have pick: "pick_best 10 (put_candidates tie_body)
        = Inr \<lparr>c_id = 2, c_d = Some dA, c_load = 0\<rparr>"
    using dP dA(3)
    by (simp add: put_candidates_tie pick_best_def within_radius_def
        cmp_load_d_def not_after_def)
  have b: "b_agents tie_body = Some [agent_A\<lparr>a_id := 2\<rparr>, agent_A\<lparr>a_id := 1\<rparr>]"
    "b_rlat tie_body \<noteq> 0" "b_rlng tie_body \<noteq> 0" "put_max_km tie_body = 10"
    by (simp_all add: tie_body_def put_max_km_def)
  have "put_assign no_faults tie_db 1 tie_body
         = (update_order tie_db 2 1, Json 200 (Agent_assigned 2 (Some (toFixed2 dA))))"
    by (simp add: put_assign_loaded [OF b(1-3)] b(4) no_faults_def pick assigned_def)
  with dP show ?thesis by blast
qed

text \<open>
  Claim C2 does not hold as stated.  Two agents at the same place, with the same
  workload: each route selects the agent with id 2, which is listed first, not the
  agent with the lower id 1.
\<close>

theorem tie_selects_first_listed:
  "admin_candidates scenario_env no_faults tie_db 1
     = [\<lparr>c_id = 2, c_d = dist 17.3850 78.4867 17.3860 78.4870, c_load = 0\<rparr>,
        \<lparr>c_id = 1, c_d = dist 17.3850 78.4867 17.3860 78.4870, c_load = 0\<rparr>]
   \<and> assigned_agent (snd (admin_assign scenario_env no_faults tie_db 1)) = Some 2
   \<and> put_candidates tie_body
     = [\<lparr>c_id = 2, c_d = dist_put 17.3850 78.4867 17.3860 78.4870, c_load = 0\<rparr>,
        \<lparr>c_id = 1, c_d = dist_put 17.3850 78.4867 17.3860 78.4870, c_load = 0\<rparr>]
   \<and> assigned_agent (snd (put_assign no_faults tie_db 1 tie_body)) = Some 2"
proof -
  from tie_assign obtain dA
    where "admin_assign scenario_env no_faults tie_db 1
         = (update_order tie_db 2 1, Json 200 (Agent_assigned 2 (Some (toFixed2 dA))))"
    by blast
  then have a: "assigned_agent (snd (admin_assign scenario_env no_faults tie_db 1)) = Some 2"
    by simp
  from tie_put_assign obtain dP
    where "put_assign no_faults tie_db 1 tie_body
         = (update_order tie_db 2 1, Json 200 (Agent_assigned 2 (Some (toFixed2 dP))))"
    by blast
  then have "assigned_agent (snd (put_assign no_faults tie_db 1 tie_body)) = Some 2"
    by simp
  with a candidates_tie put_candidates_tie show ?thesis by simp
qed

text \<open>
  Claim C2, amended.  The comparator does not look at the agent id, and the sort is
  stable: every candidate within the radius that is listed in front of the selected
  one ranks strictly behind it (more workload, or the same workload and a greater
  distance), and no candidate listed behind the selected one ranks strictly in front
  of it.  So of the candidates that tie on workload and distance, the one listed first
  (in the order of the agents query, or of the request's array) is selected.
\<close>

theorem ties_keep_list_order:
  "(pick_best m cs = Inr best \<longrightarrow>
      (\<exists>pre post. filter (within_radius m) cs = pre @ best # post
          \<and> (\<forall>c \<in> set pre. ranks_before best c)
          \<and> (\<forall>c \<in> set post. \<not> ranks_before c best)))
   \<and> (admin_assign e fails db orderId = (db', Json 200 (Agent_assigned aid dk)) \<longrightarrow>
      (\<exists>pre best post.
          filter (within_radius (assign_max_km e)) (admin_candidates e fails db orderId)
            = pre @ best # post
          \<and> c_id best = aid
          \<and> (\<forall>c \<in> set pre. ranks_before best c)
          \<and> (\<forall>c \<in> set post. \<not> ranks_before c best)))
   \<and> (put_assign fails db orderId b = (db', Json 200 (Agent_assigned aid dk)) \<longrightarrow>
      (\<exists>pre best post.
          filter (within_radius (put_max_km b)) (put_candidates b) = pre @ best # post
          \<and> c_id best = aid
          \<and> (\<forall>c \<in> set pre. ranks_before best c)
          \<and> (\<forall>c \<in> set post. \<not> ranks_before c best)))"
proof (intro conjI impI)
  assume "pick_best m cs = Inr best"
  then show "\<exists>pre post. filter (within_radius m) cs = pre @ best # post
          \<and> (\<forall>c \<in> set pre. ranks_before best c)
          \<and> (\<forall>c \<in> set post. \<not> ranks_before c best)"
    by (rule pick_best_Inr)
next
  assume "admin_assign e fails db orderId = (db', Json 200 (Agent_assigned aid dk))"
  from admin_assign_Assigned [OF this] obtain best
    where b: "pick_best (assign_max_km e) (admin_candidates e fails db orderId) = Inr best"
      "aid = c_id best"
    by blast
  from pick_best_Inr [OF b(1)] obtain pre post
    where "filter (within_radius (assign_max_km e)) (admin_candidates e fails db orderId)
            = pre @ best # post
          \<and> c_id best = aid
          \<and> (\<forall>c \<in> set pre. ranks_before best c)
          \<and> (\<forall>c \<in> set post. \<not> ranks_before c best)"
    using b(2) by blast
  then show "\<exists>pre best post.
          filter (within_radius (assign_max_km e)) (admin_candidates e fails db orderId)
            = pre @ best # post
          \<and> c_id best = aid
          \<and> (\<forall>c \<in> set pre. ranks_before best c)
          \<and> (\<forall>c \<in> set post. \<not> ranks_before c best)"
    by (intro exI)
next
  assume "put_assign fails db orderId b = (db', Json 200 (Agent_assigned aid dk))"
  from put_assign_Assigned [OF this] obtain best
    where b: "pick_best (put_max_km b) (put_candidates b) = Inr best" "aid = c_id best"
    by blast
  from pick_best_Inr [OF b(1)] obtain pre post
    where "filter (within_radius (put_max_km b)) (put_candidates b) = pre @ best # post
          \<and> c_id best = aid
          \<and> (\<forall>c \<in> set pre. ranks_before best c)
          \<and> (\<forall>c \<in> set post. \<not> ranks_before c best)"
    using b(2) by blast
  then show "\<exists>pre best post.
          filter (within_radius (put_max_km b)) (put_candidates b) = pre @ best # post
          \<and> c_id best = aid
          \<and> (\<forall>c \<in> set pre. ranks_before best c)
          \<and> (\<forall>c \<in> set post. \<not> ranks_before c best)"
    by (intro exI)
qed

theorem ties_keep_list_order_witness:
  "\<exists>dA. admin_assign scenario_env no_faults tie_db 1
         = (update_order tie_db 2 1, Json 200 (Agent_assigned 2 (Some (toFixed2 dA))))
     \<and> (\<exists>pre best post.
          filter (within_radius 10) (admin_candidates scenario_env no_faults tie_db 1)
            = pre @ best # post
          \<and> c_id best = 2
          \<and> (\<forall>c \<in> set pre. ranks_before best c)
          \<and> (\<forall>c \<in> set post. \<not> ranks_before c best))"
proof -
  from tie_assign obtain dA
    where eq: "admin_assign scenario_env no_faults tie_db 1
         = (update_order tie_db 2 1, Json 200 (Agent_assigned 2 (Some (toFixed2 dA))))"
    by blast
  from ties_keep_list_order [THEN conjunct2, THEN conjunct1, rule_format, OF eq] eq
  show ?thesis
    unfolding default_max_km by blast
qed

section \<open>Assigning an order again\<close>

lemma filter_map_id:
  assumes "\<And>x. k (g x) = k x"
  shows "filter (\<lambda>x. k x = v) (map g xs) = map g (filter (\<lambda>x. k x = v) xs)"
  using assms by (induction xs) simp_all

lemma orders_update:
  "[ord \<leftarrow> orders (update_order db aid oid). o_id ord = orderId]
     = map (\<lambda>ord. if o_id ord = oid
                    then ord\<lparr>o_agent_id := Some aid, o_status := ''Confirmed''\<rparr>
                    else ord)
           [ord \<leftarrow> orders db. o_id ord = orderId]"
  unfolding update_order_def by (simp add: filter_map_id)

lemma pickup_update: "pickup_of (update_order db aid oid) orderId = pickup_of db orderId"
proof -
  have r: "restaurants (update_order db aid oid) = restaurants db"
    by (simp add: update_order_def)
  show ?thesis
    unfolding pickup_of_def orders_update r
    by (cases "[ord \<leftarrow> orders db. o_id ord = orderId]") simp_all
qed

lemma select_agents_update: "select_agents (update_order db aid oid) = select_agents db"
  by (simp add: select_agents_def update_order_def)

lemma candidates_of_d:
  "map c_d (candidates_of rlat rlng ags m1) = map c_d (candidates_of rlat rlng ags m2)"
  by (simp add: candidates_of_def)

lemma admin_candidates_d:
  "map c_d (admin_candidates e fails (update_order db aid oid) orderId)
     = map c_d (admin_candidates e fails db orderId)"
  unfolding admin_candidates_def pickup_update select_agents_update
  by (cases "pickup_of db orderId") (auto simp: candidates_of_d)

lemma within_radius_d:
  "(\<exists>c \<in> set cs. within_radius m c)
     \<longleftrightarrow> (\<exists>d \<in> set (map c_d cs). case d of None \<Rightarrow> False | Some x \<Rightarrow> x \<le> m)"
  by (auto simp: within_radius_def)

lemma update_order_status:
  assumes "ord \<in> set (orders (update_order db aid oid))" "o_id ord = oid"
  shows "o_status ord = ''Confirmed'' \<and> o_agent_id ord = Some aid"
proof -
  let ?g = "\<lambda>x. if o_id x = oid
                then x\<lparr>o_agent_id := Some aid, o_status := ''Confirmed''\<rparr> else x"
  from assms(1) have "ord \<in> ?g ` set (orders db)"
    by (simp add: update_order_def)
  then obtain x where x: "x \<in> set (orders db)" "ord = ?g x"
    by (rule imageE)
  show ?thesis
  proof (cases "o_id x = oid")
    case True
    with x(2) show ?thesis by simp
  next
    case False
    with x(2) have "ord = x" by simp
    with False assms(2) show ?thesis by simp
  qed
qed

lemma update_order_twice:
  "update_order (update_order db aid oid) aid oid = update_order db aid oid"
  by (simp add: update_order_def comp_def cong: map_cong)

text \<open>
  Claim C1, amended.  Neither route reads the order's status.  After a successful
  assignment the order is Confirmed with the selected agent, and the same request again
  is answered 200 again: the admin route runs the selection on the new workloads and
  writes the agent it selects, the PUT route gives the same answer and leaves the store
  as it is.  No request is rejected because the order is already assigned.
\<close>

theorem assign_again_succeeds:
  "(admin_assign e fails db orderId = (db', Json 200 (Agent_assigned aid dk)) \<longrightarrow>
      (\<forall>ord \<in> set (orders db'). o_id ord = orderId
          \<longrightarrow> o_status ord = ''Confirmed'' \<and> o_agent_id ord = Some aid)
      \<and> (\<exists>aid' dk'. admin_assign e fails db' orderId
            = (update_order db' aid' orderId, Json 200 (Agent_assigned aid' dk'))))
   \<and> (put_assign fails db orderId b = (db', Json 200 (Agent_assigned aid dk)) \<longrightarrow>
      (\<forall>ord \<in> set (orders db'). o_id ord = orderId
          \<longrightarrow> o_status ord = ''Confirmed'' \<and> o_agent_id ord = Some aid)
      \<and> put_assign fails db' orderId b = (db', Json 200 (Agent_assigned aid dk)))"
proof (intro conjI impI ballI)
  assume h: "admin_assign e fails db orderId = (db', Json 200 (Agent_assigned aid dk))"
  from admin_assign_Assigned [OF h] obtain rlat rlng best
    where f: "\<not> fails Select_order" "\<not> fails Select_restaurant" "\<not> fails Select_agents"
      "\<not> fails Update_order"
      and p: "pickup_of db orderId = Some (rlat, rlng)" and s: "select_agents db \<noteq> []"
      and b: "pick_best (assign_max_km e) (admin_candidates e fails db orderId) = Inr best"
      and db': "db' = update_order db aid orderId"
    by blast
  {
    fix ord assume "ord \<in> set (orders db')" "o_id ord = orderId"
    then show "o_status ord = ''Confirmed''" "o_agent_id ord = Some aid"
      using update_order_status [of ord db aid orderId] db' by simp_all
  }
  have "\<exists>c \<in> set (admin_candidates e fails db orderId). within_radius (assign_max_km e) c"
    using pick_best_mem [OF b] by blast
  then have "\<exists>c \<in> set (admin_candidates e fails db' orderId). within_radius (assign_max_km e) c"
    unfolding within_radius_d db' admin_candidates_d .
  then obtain best' where b': "pick_best (assign_max_km e) (admin_candidates e fails db' orderId)
                                = Inr best'"
    using pick_best_nonempty by blast
  have p': "pickup_of db' orderId = Some (rlat, rlng)"
    unfolding db' pickup_update by (rule p)
  have s': "select_agents db' \<noteq> []"
    unfolding db' select_agents_update by (rule s)
  have "admin_assign e fails db' orderId
          = (update_order db' (c_id best') orderId,
             Json 200 (Agent_assigned (c_id best') (map_option toFixed2 (c_d best'))))"
    using f(4) by (simp add: admin_assign_loaded [OF f(1-3) p' s'] b' assigned_def)
  then show "\<exists>aid' dk'. admin_assign e fails db' orderId
            = (update_order db' aid' orderId, Json 200 (Agent_assigned aid' dk'))"
    by (intro exI)
next
  assume h: "put_assign fails db orderId b = (db', Json 200 (Agent_assigned aid dk))"
  from put_assign_Assigned [OF h] obtain ags best
    where f: "\<not> fails Update_order" and a: "b_agents b = Some ags"
      and z: "b_rlat b \<noteq> 0" "b_rlng b \<noteq> 0"
      and b: "pick_best (put_max_km b) (put_candidates b) = Inr best"
        "aid = c_id best" "dk = map_option toFixed2 (c_d best)"
      and db': "db' = update_order db aid orderId"
    by blast
  {
    fix ord assume "ord \<in> set (orders db')" "o_id ord = orderId"
    then show "o_status ord = ''Confirmed''" "o_agent_id ord = Some aid"
      using update_order_status [of ord db aid orderId] db' by simp_all
  }
  show "put_assign fails db' orderId b = (db', Json 200 (Agent_assigned aid dk))"
    using f b by (simp add: put_assign_loaded [OF a z] assigned_def db' update_order_twice)
qed

lemma candidates_idle:
  assumes "dist 17.3850 78.4867 17.3860 78.4870 = Some dA"
    and "dist 17.3850 78.4867 17.4000 78.5100 = Some dB"
  shows "admin_candidates scenario_env no_faults idle_db 1
         = [\<lparr>c_id = 1, c_d = Some dA, c_load = 0\<rparr>, \<lparr>c_id = 2, c_d = Some dB, c_load = 0\<rparr>]"
    and "admin_candidates scenario_env no_faults (update_order idle_db 1 1) 1
         = [\<lparr>c_id = 1, c_d = Some dA, c_load = 1\<rparr>, \<lparr>c_id = 2, c_d = Some dB, c_load = 0\<rparr>]"
proof -
  have l0: "load_map no_faults idle_db [''Pending'', ''Confirmed'', ''Picked''] = Map.empty"
    by (simp add: load_map_def no_faults_def select_loads_def List.map_filter_def
        idle_db_def new_order_def)
  have l1: "load_map no_faults (update_order idle_db 1 1) [''Pending'', ''Confirmed'', ''Picked'']
              = [1 \<mapsto> 1]"
    by (simp add: load_map_def no_faults_def select_loads_def List.map_filter_def
        idle_db_def new_order_def update_order_def)
  show "admin_candidates scenario_env no_faults idle_db 1
         = [\<lparr>c_id = 1, c_d = Some dA, c_load = 0\<rparr>, \<lparr>c_id = 2, c_d = Some dB, c_load = 0\<rparr>]"
    using assms
    by (simp add: admin_candidates_def pickup_scenario default_statuses l0
        candidates_of_def select_agents_scenario Number_def agent_A_def agent_B_def)
  show "admin_candidates scenario_env no_faults (update_order idle_db 1 1) 1
         = [\<lparr>c_id = 1, c_d = Some dA, c_load = 1\<rparr>, \<lparr>c_id = 2, c_d = Some dB, c_load = 0\<rparr>]"
    using assms
    by (simp add: admin_candidates_def pickup_update select_agents_update pickup_scenario
        default_statuses l1 candidates_of_def select_agents_scenario Number_def
        agent_A_def agent_B_def)
qed

lemma idle_assign_twice:
  "\<exists>dA dB. admin_assign scenario_env no_faults idle_db 1
         = (update_order idle_db 1 1, Json 200 (Agent_assigned 1 (Some (toFixed2 dA))))
     \<and> admin_assign scenario_env no_faults (update_order idle_db 1 1) 1
         = (update_order (update_order idle_db 1 1) 2 1,
            Json 200 (Agent_assigned 2 (Some (toFixed2 dB))))"
proof -
  obtain dA where dA: "dist 17.3850 78.4867 17.3860 78.4870 = Some dA" "0 \<le> dA" "dA \<le> 0.16"
    using dist_A by blast
  obtain dB where dB: "dist 17.3850 78.4867 17.4000 78.5100 = Some dB" "0.26 \<le> dB" "dB \<le> 4"
    using dist_B by blast
  note cs = candidates_idle [OF dA(1) dB(1)]
  have sel: "select_agents idle_db \<noteq> []" "select_agents (update_order idle_db 1 1) \<noteq> []"
    by (simp_all add: select_agents_update select_agents_scenario)
  have p2: "pickup_of (update_order idle_db 1 1) 1 = Some (17.3850, 78.4867)"
    by (simp add: pickup_update pickup_scenario)
  have pick1: "pick_best 10 (admin_candidates scenario_env no_faults idle_db 1)
        = Inr \<lparr>c_id = 1, c_d = Some dA, c_load = 0\<rparr>"
    using dA(3) dB(2,3)
    by (simp add: cs pick_best_def within_radius_def cmp_load_d_def not_after_def)
  have pick2: "pick_best 10 (admin_candidates scenario_env no_faults (update_order idle_db 1 1) 1)
        = Inr \<lparr>c_id = 2, c_d = Some dB, c_load = 0\<rparr>"
    using dA(3) dB(2,3)
    by (simp add: cs pick_best_def within_radius_def cmp_load_d_def not_after_def)
  have "admin_assign scenario_env no_faults idle_db 1
         = (update_order idle_db 1 1, Json 200 (Agent_assigned 1 (Some (toFixed2 dA))))"
    by (simp add: admin_assign_loaded [OF _ _ _ pickup_scenario(3) sel(1)] no_faults_def
        default_max_km pick1 assigned_def)
  moreover have "admin_assign scenario_env no_faults (update_order idle_db 1 1) 1
         = (update_order (update_order idle_db 1 1) 2 1,
            Json 200 (Agent_assigned 2 (Some (toFixed2 dB))))"
    by (simp add: admin_assign_loaded [OF _ _ _ p2 sel(2)] no_faults_def
        default_max_km pick2 assigned_def)
  ultimately show ?thesis by blast
qed

text \<open>
  Claim C1 does not hold as stated.  Agents A and B have no orders and order 1 is
  Pending.  The first request assigns agent A, the nearer one, and the order is
  Confirmed; the second request on the Confirmed order is answered 200 as well and
  assigns agent B, since A now has order 1 as workload.
\<close>

theorem assign_twice_both_succeed:
  "map o_status (orders idle_db) = [''Pending'']
   \<and> assigned_agent (snd (admin_assign scenario_env no_faults idle_db 1)) = Some 1
   \<and> fst (admin_assign scenario_env no_faults idle_db 1) = update_order idle_db 1 1
   \<and> map o_status (orders (update_order idle_db 1 1)) = [''Confirmed'']
   \<and> map o_agent_id (orders (update_order idle_db 1 1)) = [Some 1]
   \<and> assigned_agent (snd (admin_assign scenario_env no_faults (update_order idle_db 1 1) 1))
       = Some 2
   \<and> fst (admin_assign scenario_env no_faults (update_order idle_db 1 1) 1)
       = update_order (update_order idle_db 1 1) 2 1
   \<and> map o_agent_id (orders (update_order (update_order idle_db 1 1) 2 1)) = [Some 2]"
proof -
  from idle_assign_twice obtain dA dB
    where "admin_assign scenario_env no_faults idle_db 1
         = (update_order idle_db 1 1, Json 200 (Agent_assigned 1 (Some (toFixed2 dA))))"
      and "admin_assign scenario_env no_faults (update_order idle_db 1 1) 1
         = (update_order (update_order idle_db 1 1) 2 1,
            Json 200 (Agent_assigned 2 (Some (toFixed2 dB))))"
    by blast
  then show ?thesis
    by (simp add: update_order_def idle_db_def new_order_def)
qed

text \<open>
  The amended claim on the same two requests.
\<close>

theorem assign_again_succeeds_witness:
  "\<exists>dk. admin_assign scenario_env no_faults idle_db 1
           = (update_order idle_db 1 1, Json 200 (Agent_assigned 1 dk))
     \<and> map o_status (orders (update_order idle_db 1 1)) = [''Confirmed'']
     \<and> (\<exists>aid' dk'. admin_assign scenario_env no_faults (update_order idle_db 1 1) 1
            = (update_order (update_order idle_db 1 1) aid' 1,
               Json 200 (Agent_assigned aid' dk')))"
proof -
  from idle_assign_twice obtain dA
    where eq: "admin_assign scenario_env no_faults idle_db 1
         = (update_order idle_db 1 1, Json 200 (Agent_assigned 1 (Some (toFixed2 dA))))"
    by blast
  have st: "map o_status (orders (update_order idle_db 1 1)) = [''Confirmed'']"
    by (simp add: update_order_def idle_db_def new_order_def)
  from assign_again_succeeds [THEN conjunct1, rule_format, OF eq]
  have again: "\<exists>aid' dk'. admin_assign scenario_env no_faults (update_order idle_db 1 1) 1
            = (update_order (update_order idle_db 1 1) aid' 1,
               Json 200 (Agent_assigned aid' dk'))"
    by (rule conjunct2)
  show ?thesis
  proof (rule exI [of _ "Some (toFixed2 dA)"], intro conjI)
    show "admin_assign scenario_env no_faults idle_db 1
           = (update_order idle_db 1 1, Json 200 (Agent_assigned 1 (Some (toFixed2 dA))))"
      by (rule eq)
    show "map o_status (orders (update_order idle_db 1 1)) = [''Confirmed'']"
      by (rule st)
    show "\<exists>aid' dk'. admin_assign scenario_env no_faults (update_order idle_db 1 1) 1
            = (update_order (update_order idle_db 1 1) aid' 1,
               Json 200 (Agent_assigned aid' dk'))"
      by (rule again)
  qed
qed

section \<open>The workload of a candidate\<close>

lemma fold_rows:
  "fold (\<lambda>(agent_id, cnt) m. m(agent_id \<mapsto> cnt)) (map (\<lambda>a. (a, f a)) ids) m0 a
     = (if a \<in> set ids then Some (f a) else m0 a)"
  by (induction ids arbitrary: m0) auto

lemma set_map_filter: "set (List.map_filter g xs) = {y. \<exists>x \<in> set xs. g x = Some y}"
  by (auto simp: List.map_filter_def image_iff) force

lemma load_map_count:
  assumes "\<not> fails Select_loads"
  shows "load_map fails db statuses a =
           (if active_orders_of db statuses a = [] then None
            else Some (int (length (active_orders_of db statuses a))))"
proof -
  let ?rows = "[ord \<leftarrow> orders db. o_status ord \<in> set statuses]"
  have c: "[ord \<leftarrow> ?rows. o_agent_id ord = Some a] = active_orders_of db statuses a"
    by (simp add: active_orders_of_def)
  have m: "a \<in> set (remdups (List.map_filter o_agent_id ?rows))
             \<longleftrightarrow> active_orders_of db statuses a \<noteq> []"
    by (auto simp: set_map_filter active_orders_of_def filter_empty_conv)
  show ?thesis
    using assms
    by (simp add: load_map_def select_loads_def Let_def fold_rows m del: set_remdups)
      (simp add: active_orders_of_def)
qed

lemma select_loads_ids:
  "fst ` set (select_loads db statuses) = {a. active_orders_of db statuses a \<noteq> []}"
  by (auto simp: select_loads_def Let_def set_map_filter active_orders_of_def filter_empty_conv
      image_iff)

lemma load_map_fails: "fails Select_loads \<Longrightarrow> load_map fails db statuses = Map.empty"
  by (simp add: load_map_def)

lemma admin_assign_not_500:
  assumes "\<not> fails Select_order" "\<not> fails Select_restaurant" "\<not> fails Select_agents"
    "\<not> fails Update_order"
  shows "snd (admin_assign e fails db orderId) \<noteq> failed_to_assign"
  using assms
  by (auto simp: admin_assign_def Let_def failed_to_assign_def assigned_def pick_best_Inl
      split: list.splits option.splits if_splits sum.splits)

lemma admin_candidates_load:
  assumes "c \<in> set (admin_candidates e fails db orderId)"
  shows "c_load c = (case load_map fails db (assign_load_statuses e) (c_id c) of
                       None \<Rightarrow> 0 | Some n \<Rightarrow> n)"
proof -
  from admin_candidates_mem [OF assms] obtain a :: agent_row
    where "c_id c = a_id a"
      "c_load c = (case load_map fails db (assign_load_statuses e) (a_id a) of
                     None \<Rightarrow> 0 | Some n \<Rightarrow> n)"
    by blast
  then show ?thesis by simp
qed

lemma admin_candidates_agents:
  assumes "c \<in> set (admin_candidates e fails db orderId)"
  shows "select_agents db \<noteq> []"
  using admin_candidates_mem [OF assms] by auto

text \<open>
  Claim C10.  In the admin route a candidate whose agent has no row in the result of
  the workload query has workload 0, and otherwise the count of its active orders.
  When the workload query fails, every candidate has workload 0; if no other statement
  fails the answer is not the 500 response, and when a candidate lies within the radius
  the route assigns one whose distance is least among the candidates within the radius.
\<close>

theorem missing_workload_is_zero:
  "(c \<in> set (admin_candidates e fails db orderId)
      \<and> c_id c \<notin> fst ` set (select_loads db (assign_load_statuses e)) \<longrightarrow> c_load c = 0)
   \<and> (c \<in> set (admin_candidates e fails db orderId) \<and> \<not> fails Select_loads \<longrightarrow>
        c_load c = int (length (active_orders_of db (assign_load_statuses e) (c_id c))))
   \<and> (fails Select_loads \<longrightarrow> (\<forall>c' \<in> set (admin_candidates e fails db orderId). c_load c' = 0))
   \<and> (fails Select_loads \<and> \<not> fails Select_order \<and> \<not> fails Select_restaurant
        \<and> \<not> fails Select_agents \<and> \<not> fails Update_order \<longrightarrow>
        snd (admin_assign e fails db orderId) \<noteq> failed_to_assign
        \<and> (cn \<in> set (admin_candidates e fails db orderId) \<and> within_radius (assign_max_km e) cn
            \<longrightarrow> (\<exists>b \<in> set (admin_candidates e fails db orderId).
                   admin_assign e fails db orderId
                     = (update_order db (c_id b) orderId, assigned b)
                   \<and> within_radius (assign_max_km e) b
                   \<and> (\<exists>x y. c_d b = Some x \<and> c_d cn = Some y \<and> x \<le> y))))"
proof (intro conjI impI ballI)
  assume h: "c \<in> set (admin_candidates e fails db orderId)
      \<and> c_id c \<notin> fst ` set (select_loads db (assign_load_statuses e))"
  show "c_load c = 0"
  proof (cases "fails Select_loads")
    case True
    with h admin_candidates_load [of c e fails db orderId] show ?thesis
      by (simp add: load_map_fails)
  next
    case False
    from h have "active_orders_of db (assign_load_statuses e) (c_id c) = []"
      by (simp add: select_loads_ids)
    with h False admin_candidates_load [of c e fails db orderId] show ?thesis
      by (simp add: load_map_count)
  qed
next
  assume "c \<in> set (admin_candidates e fails db orderId) \<and> \<not> fails Select_loads"
  with admin_candidates_load [of c e fails db orderId]
  show "c_load c = int (length (active_orders_of db (assign_load_statuses e) (c_id c)))"
    by (simp add: load_map_count)
next
  fix c'
  assume "fails Select_loads" "c' \<in> set (admin_candidates e fails db orderId)"
  with admin_candidates_load [of c' e fails db orderId] show "c_load c' = 0"
    by (simp add: load_map_fails)
next
  assume "fails Select_loads \<and> \<not> fails Select_order \<and> \<not> fails Select_restaurant
        \<and> \<not> fails Select_agents \<and> \<not> fails Update_order"
  then show "snd (admin_assign e fails db orderId) \<noteq> failed_to_assign"
    by (intro admin_assign_not_500) simp_all
next
  assume f: "fails Select_loads \<and> \<not> fails Select_order \<and> \<not> fails Select_restaurant
        \<and> \<not> fails Select_agents \<and> \<not> fails Update_order"
    and n: "cn \<in> set (admin_candidates e fails db orderId) \<and> within_radius (assign_max_km e) cn"
  let ?cs = "admin_candidates e fails db orderId"
  from n obtain b where b: "pick_best (assign_max_km e) ?cs = Inr b"
    using pick_best_nonempty by blast
  from admin_candidates_mem n obtain rlat rlng where p: "pickup_of db orderId = Some (rlat, rlng)"
    by blast
  have s: "select_agents db \<noteq> []"
    using n admin_candidates_agents by blast
  have eq: "admin_assign e fails db orderId = (update_order db (c_id b) orderId, assigned b)"
    using f by (simp add: admin_assign_loaded [OF _ _ _ p s] b)
  have bin: "b \<in> set ?cs" "within_radius (assign_max_km e) b"
    using pick_best_mem [OF b] by simp_all
  have "c_load b = c_load cn"
    using f bin(1) n admin_candidates_load [of b e fails db orderId]
      admin_candidates_load [of cn e fails db orderId]
    by (simp add: load_map_fails)
  with pick_best_least [OF b] n have "\<exists>x y. c_d b = Some x \<and> c_d cn = Some y \<and> x \<le> y"
    by blast
  with eq bin show "\<exists>b \<in> set ?cs.
                   admin_assign e fails db orderId
                     = (update_order db (c_id b) orderId, assigned b)
                   \<and> within_radius (assign_max_km e) b
                   \<and> (\<exists>x y. c_d b = Some x \<and> c_d cn = Some y \<and> x \<le> y)"
    by blast
qed

lemma candidates_loads_fail:
  assumes "dist 17.3850 78.4867 17.3860 78.4870 = Some dA"
    and "dist 17.3850 78.4867 17.4000 78.5100 = Some dB"
  shows "admin_candidates scenario_env loads_fail scenario_db 1
         = [\<lparr>c_id = 1, c_d = Some dA, c_load = 0\<rparr>, \<lparr>c_id = 2, c_d = Some dB, c_load = 0\<rparr>]"
  using assms
  by (simp add: admin_candidates_def pickup_scenario default_statuses load_map_def loads_fail_def
      candidates_of_def select_agents_scenario Number_def agent_A_def agent_B_def)

text \<open>
  The scenario with a failing workload query: agent A, the nearer one, is assigned,
  where the workloads would have selected agent B.
\<close>

theorem missing_workload_is_zero_witness:
  "loads_fail Select_loads \<and> \<not> loads_fail Select_order \<and> \<not> loads_fail Select_restaurant
   \<and> \<not> loads_fail Select_agents \<and> \<not> loads_fail Update_order
   \<and> list_all (\<lambda>c'. c_load c' = 0) (admin_candidates scenario_env loads_fail scenario_db 1)
   \<and> snd (admin_assign scenario_env loads_fail scenario_db 1) \<noteq> failed_to_assign
   \<and> (\<exists>dA. admin_assign scenario_env loads_fail scenario_db 1
         = (update_order scenario_db 1 1, Json 200 (Agent_assigned 1 (Some (toFixed2 dA)))))
   \<and> assigned_agent (snd (admin_assign scenario_env no_faults scenario_db 1)) = Some 2"
proof -
  have f: "loads_fail Select_loads \<and> \<not> loads_fail Select_order \<and> \<not> loads_fail Select_restaurant
        \<and> \<not> loads_fail Select_agents \<and> \<not> loads_fail Update_order"
    by (simp add: loads_fail_def)
  note t = missing_workload_is_zero [of _ scenario_env loads_fail scenario_db 1]
  have z: "\<forall>c' \<in> set (admin_candidates scenario_env loads_fail scenario_db 1). c_load c' = 0"
    using t [THEN conjunct2, THEN conjunct2, THEN conjunct1] f by blast
  have n: "snd (admin_assign scenario_env loads_fail scenario_db 1) \<noteq> failed_to_assign"
    using t [THEN conjunct2, THEN conjunct2, THEN conjunct2] f by blast
  obtain dA where dA: "dist 17.3850 78.4867 17.3860 78.4870 = Some dA" "0 \<le> dA" "dA \<le> 0.16"
    using dist_A by blast
  obtain dB where dB: "dist 17.3850 78.4867 17.4000 78.5100 = Some dB" "0.26 \<le> dB" "dB \<le> 4"
    using dist_B by blast
  note cs = candidates_loads_fail [OF dA(1) dB(1)]
  have sel: "select_agents scenario_db \<noteq> []"
    by (simp add: select_agents_scenario)
  have pick: "pick_best 10 (admin_candidates scenario_env loads_fail scenario_db 1)
        = Inr \<lparr>c_id = 1, c_d = Some dA, c_load = 0\<rparr>"
    using dA(3) dB(2,3)
    by (simp add: cs pick_best_def within_radius_def cmp_load_d_def not_after_def)
  have e1: "admin_assign scenario_env loads_fail scenario_db 1
         = (update_order scenario_db 1 1, Json 200 (Agent_assigned 1 (Some (toFixed2 dA))))"
    by (simp add: admin_assign_loaded [OF _ _ _ pickup_scenario(1) sel] loads_fail_def
        default_max_km pick assigned_def)
  from scenario_assign obtain dB'
    where "admin_assign scenario_env no_faults scenario_db 1
         = (update_order scenario_db 2 1, Json 200 (Agent_assigned 2 (Some (toFixed2 dB'))))"
    by blast
  then have e2: "assigned_agent (snd (admin_assign scenario_env no_faults scenario_db 1)) = Some 2"
    by simp
  from z have "list_all (\<lambda>c'. c_load c' = 0)
                 (admin_candidates scenario_env loads_fail scenario_db 1)"
    by (simp add: list_all_iff)
  with f n e1 e2 show ?thesis by blast
qed

end
